theory Spec2Isabelle
  imports Complex_Main "HOL-Library.Word"
begin

unbundle bit_operations_syntax

section \<open>Data model (include/bmu.h and the globals of src/main.cpp, v3.1)\<close>

text \<open>
  The target is a 32-bit ARM microcontroller: \<open>int\<close> is a 32-bit two's complement word,
  read with \<^const>\<open>sint\<close>; \<open>char\<close> and \<open>uint8_t\<close> are bytes, \<open>uint16_t\<close> is a 16-bit word.
\<close>

type_synonym u8 = "8 word"
type_synonym u16 = "16 word"
type_synonym i32 = "32 word"

text \<open>\<open>struct ivt_state\<close>. The field \<open>power\<close> is suffixed: the name is taken in HOL.\<close>

record ivt_state =
  current :: i32
  voltage1 :: i32
  voltage2 :: i32
  voltage3 :: i32
  temperature :: i32
  power_ivt :: i32
  charge :: i32
  energy :: i32

text \<open>\<open>struct bmu_state\<close>.\<close>

record bmu_state =
  over_current :: bool
  under_voltage :: bool
  over_voltage :: bool
  under_temperature :: bool
  over_temperature :: bool
  safe_to_drive :: bool
  charging_state :: bool
  precharge_state :: bool
  discharge_state :: bool
  contactor_state :: bool
  fan1_state :: u8
  fan2_state :: u8
  fan3_state :: u8
  fan4_state :: u8

text \<open>
  A CAN frame: its identifier and its data bytes. A received frame carries the eight
  bytes of \<open>CANMessage::data\<close> (an \<open>unsigned char[8]\<close>); a transmitted frame carries the
  \<open>len\<close> bytes given to the constructor.
\<close>

record CANMessage =
  msg_id :: nat
  msg_data :: "u8 list"

text \<open>
  The two interrupts that change the state: the CAN receive interrupt, with the clock
  reading at which it runs and the frame it reads, and the 1 Hz ticker.
\<close>

datatype interrupt = Rx nat CANMessage | Tick

text \<open>
  The process-wide state: every global variable of main.cpp that the program reads or
  writes, the digital outputs, and the log of frames handed to \<open>can.write\<close>.
  \<^item> \<open>IVT_timer\<close> is the reading of the millisecond clock at which the \<open>Timer\<close> was last
    restarted, so that its elapsed time at clock reading \<open>now\<close> is \<open>now - IVT_timer\<close>.
  \<^item> \<open>BMU_status_array\<close> (a \<open>char[6]\<close>) is only ever indexed by the constants 0..5 and is
    a function from the index; \<open>contactor_array\<close> (a \<open>char[1]\<close>) is its single byte.
  \<^item> \<open>cell_voltages\<close> (\<open>uint16_t[32]\<close>) and \<open>cell_temperatures\<close> (\<open>uint8_t[2][8]\<close>) are indexed
    by computed values and are lists, written through bounds-checked stores.
  \<^item> \<open>irq_schedule\<close> is not a variable of the program but its environment: the
    interrupts that will pre-empt the main thread in the current main-loop iteration, one
    batch for each point at which the model lets interrupts in (see \<open>window\<close> below).
\<close>

record state =
  BMU :: bmu_state
  ivt_front :: ivt_state
  ivt_rear :: ivt_state
  cell_voltages :: "u16 list"
  cell_temperatures :: "u8 list list"
  temp_max_battery_pack_voltage_mv :: int
  temp_min_battery_pack_voltage_mv :: int
  IVT_timer :: nat
  IVT_time :: "32 word"
  heartbeat_flag :: bool
  error_flag :: bool
  over_voltage_flag :: bool
  under_voltage_flag :: bool
  over_temperature_flag :: bool
  under_temperature_flag :: bool
  ignition_demand :: bool
  previous_ignition_demand :: bool
  solar_demand :: bool
  currently_precharging :: bool
  currently_discharging :: bool
  contactor_array :: u8
  BMU_status_array :: "nat \<Rightarrow> u8"
  previous_status :: u8
  prechg_enable :: bool
  dischg_disable :: bool
  hvdc_enable :: bool
  safe_indic :: bool
  contactor_indic :: bool
  solar_indic :: bool
  charge_indic :: bool
  solar_enable :: bool
  can_tx :: "CANMessage list"
  irq_schedule :: "interrupt list list"

text \<open>
  The state at boot: globals are zero-initialised, \<open>DigitalOut\<close> pins start low, and
  \<open>main\<close> clears \<open>over_voltage\<close>, \<open>under_voltage\<close>, \<open>over_current\<close> and \<open>safe_to_drive\<close> and starts
  \<open>IVT_timer\<close> (clock reading 0).
\<close>

definition init_ivt :: ivt_state where
  "init_ivt = \<lparr>current = 0, voltage1 = 0, voltage2 = 0, voltage3 = 0, temperature = 0,
               power_ivt = 0, charge = 0, energy = 0\<rparr>"

definition init_bmu :: bmu_state where
  "init_bmu = \<lparr>over_current = False, under_voltage = False, over_voltage = False,
               under_temperature = False, over_temperature = False, safe_to_drive = False,
               charging_state = False, precharge_state = False, discharge_state = False,
               contactor_state = False, fan1_state = 0, fan2_state = 0, fan3_state = 0,
               fan4_state = 0\<rparr>"

definition init_state :: state where
  "init_state = \<lparr>BMU = init_bmu, ivt_front = init_ivt, ivt_rear = init_ivt,
     cell_voltages = replicate 32 0, cell_temperatures = replicate 2 (replicate 8 0),
     temp_max_battery_pack_voltage_mv = 0, temp_min_battery_pack_voltage_mv = 0,
     IVT_timer = 0, IVT_time = 0, heartbeat_flag = False, error_flag = False,
     over_voltage_flag = False, under_voltage_flag = False, over_temperature_flag = False,
     under_temperature_flag = False, ignition_demand = False,
     previous_ignition_demand = False, solar_demand = False, currently_precharging = False,
     currently_discharging = False, contactor_array = 0, BMU_status_array = (\<lambda>_. 0),
     previous_status = 0, prechg_enable = False, dischg_disable = False,
     hvdc_enable = False, safe_indic = False, contactor_indic = False, solar_indic = False,
     charge_indic = False, solar_enable = False, can_tx = [], irq_schedule = []\<rparr>"

section \<open>Constants\<close>

abbreviation MAX_DISCHARGE_MAH :: int where "MAX_DISCHARGE_MAH \<equiv> 100000"
abbreviation MAX_CHARGE_MAH :: int where "MAX_CHARGE_MAH \<equiv> - 100000"
abbreviation MAX_BATTERY_PACK_VOTAGE_MV :: int where "MAX_BATTERY_PACK_VOTAGE_MV \<equiv> 67040"
abbreviation MIN_BATTERY_PACK_VOLTAGE_MV :: int where "MIN_BATTERY_PACK_VOLTAGE_MV \<equiv> 48000"
abbreviation BATTERY_PACK_VOLTAGE_HYSTERESIS :: int where "BATTERY_PACK_VOLTAGE_HYSTERESIS \<equiv> 160"
abbreviation MAX_IVT_TEMPERATURE :: real where "MAX_IVT_TEMPERATURE \<equiv> 75"
abbreviation MIN_IVT_TEMPERATURE :: real where "MIN_IVT_TEMPERATURE \<equiv> 2"
abbreviation IVT_TIMEOUT_MS :: "32 word" where "IVT_TIMEOUT_MS \<equiv> 1000"
abbreviation BMU_CAN_ID :: nat where "BMU_CAN_ID \<equiv> 0x400"
abbreviation DRIVER_CONTROLS_ID :: nat where "DRIVER_CONTROLS_ID \<equiv> 0x500"
abbreviation CELL_VOLTAGES_BASE_ID :: nat where "CELL_VOLTAGES_BASE_ID \<equiv> 0x360"

section \<open>CAN transmission and the IVT configurator\<close>

text \<open>
  \<open>can_send\<close> hands the frame to the peripheral and busy-waits, for at most
  \<open>CAN_TIMEOUT_MS\<close>, on the flag \<open>CAN_data_sent\<close> set by the transmit interrupt. That flag is
  read nowhere else and every caller discards the boolean result, so \<open>can_send\<close> itself
  keeps the one lasting effect: the frame joins the log of written frames. The busy wait
  is a stretch of time in which the other interrupts pre-empt the main thread: each call
  from the main thread is followed by a \<open>window\<close> (below). Inside the receive interrupt
  (\<open>config_IVT\<close>) no other interrupt is served.
\<close>

definition can_send :: "CANMessage \<Rightarrow> state \<Rightarrow> state" where
  "can_send msg s = s\<lparr>can_tx := can_tx s @ [msg]\<rparr>"

definition stop_msg :: CANMessage where
  "stop_msg = \<lparr>msg_id = 0x411, msg_data = [0x34, 0x00, 0x00, 0x00, 0x00]\<rparr>"
definition start_msg :: CANMessage where
  "start_msg = \<lparr>msg_id = 0x411, msg_data = [0x34, 0x01, 0x01, 0x00, 0x00]\<rparr>"
definition current_setup_msg :: CANMessage where
  "current_setup_msg = \<lparr>msg_id = 0x411, msg_data = [0x20, 0x02, 0x00, 0x19]\<rparr>"
definition voltage1_setup_msg :: CANMessage where
  "voltage1_setup_msg = \<lparr>msg_id = 0x411, msg_data = [0x21, 0x02, 0x03, 0xE8]\<rparr>"
definition voltage2_setup_msg :: CANMessage where
  "voltage2_setup_msg = \<lparr>msg_id = 0x411, msg_data = [0x22, 0x00, 0x03, 0xE8]\<rparr>"
definition voltage3_setup_msg :: CANMessage where
  "voltage3_setup_msg = \<lparr>msg_id = 0x411, msg_data = [0x23, 0x00, 0x03, 0xE8]\<rparr>"
definition temperature_setup_msg :: CANMessage where
  "temperature_setup_msg = \<lparr>msg_id = 0x411, msg_data = [0x24, 0x02, 0x03, 0xE8]\<rparr>"
definition charge_setup_msg :: CANMessage where
  "charge_setup_msg = \<lparr>msg_id = 0x411, msg_data = [0x25, 0x02, 0x03, 0xE8]\<rparr>"
definition power_setup_msg :: CANMessage where
  "power_setup_msg = \<lparr>msg_id = 0x411, msg_data = [0x26, 0x02, 0x03, 0xE8]\<rparr>"
definition energy_setup_msg :: CANMessage where
  "energy_setup_msg = \<lparr>msg_id = 0x411, msg_data = [0x27, 0x02, 0x03, 0xE8]\<rparr>"

text \<open>\<open>config_IVT\<close>: ten sends in the order of the source (the 50 us waits leave no trace).\<close>

definition config_IVT :: "state \<Rightarrow> state" where
  "config_IVT s =
     can_send start_msg (can_send energy_setup_msg (can_send power_setup_msg
       (can_send charge_setup_msg (can_send temperature_setup_msg
         (can_send voltage3_setup_msg (can_send voltage2_setup_msg
           (can_send voltage1_setup_msg (can_send current_setup_msg
             (can_send stop_msg s)))))))))"

section \<open>The CAN receive interrupt\<close>

text \<open>
  The codec of the IVT scalars: \<open>data[5] | data[4] << 8 | data[3] << 16 | data[2] << 24\<close>,
  computed in \<open>int\<close>.
\<close>

definition ivt_value :: "u8 list \<Rightarrow> i32" where
  "ivt_value d = ucast (d ! 5) OR push_bit 8 (ucast (d ! 4)) OR push_bit 16 (ucast (d ! 3))
                 OR push_bit 24 (ucast (d ! 2))"

text \<open>
  The loop of case \<open>0x360 ... 0x367\<close>, from iteration \<open>i\<close> on. A store outside the array is
  undefined behaviour in C: the model returns \<open>None\<close> for it.
\<close>

function cell_voltages_loop :: "nat \<Rightarrow> CANMessage \<Rightarrow> u16 list \<Rightarrow> u16 list option" where
  "cell_voltages_loop i m cv =
     (if i < 4 then
        (let index = (msg_id m - CELL_VOLTAGES_BASE_ID) * 4 + i in
         if index < length cv then
           cell_voltages_loop (i + 1) m
             (cv[index := ucast (msg_data m ! (i * 2))
                          OR push_bit 8 (ucast (msg_data m ! (i * 2 + 1)))])
         else None)
      else Some cv)"
  by pat_completeness auto
termination
  by (relation "measure (\<lambda>(i, m, cv). 4 - i)") auto

text \<open>The loops of cases \<open>0x550\<close> (row 0) and \<open>0x562\<close> (row 1), from iteration \<open>i\<close> on.\<close>

function cell_temperatures_loop ::
  "nat \<Rightarrow> nat \<Rightarrow> CANMessage \<Rightarrow> u8 list list \<Rightarrow> u8 list list option" where
  "cell_temperatures_loop row i m ct =
     (if i < 8 then
        (if row < length ct \<and> i < length (ct ! row) then
           cell_temperatures_loop row (i + 1) m (ct[row := (ct ! row)[i := msg_data m ! i]])
         else None)
      else Some ct)"
  by pat_completeness auto
termination
  by (relation "measure (\<lambda>(row, i, m, ct). 8 - i)") auto

text \<open>
  Cases \<open>0x520\<close> and \<open>0x530\<close>: the timer is stopped, its elapsed milliseconds are stored
  in the \<open>unsigned long\<close> \<open>IVT_time\<close> (a 32-bit word), and it is reset and restarted. \<open>now\<close> is the
  reading of the millisecond clock when the interrupt runs.
\<close>

definition restart_IVT_timer :: "nat \<Rightarrow> state \<Rightarrow> state" where
  "restart_IVT_timer now s = s\<lparr>IVT_time := of_nat (now - IVT_timer s), IVT_timer := now\<rparr>"

text \<open>\<open>CANRecieveRoutine\<close>: the switch on the identifier, in the order of the source.\<close>

definition CANRecieveRoutine :: "nat \<Rightarrow> CANMessage \<Rightarrow> state \<Rightarrow> state option" where
  "CANRecieveRoutine now m s =
    (let i = msg_id m; d = msg_data m in
     if CELL_VOLTAGES_BASE_ID \<le> i \<and> i \<le> CELL_VOLTAGES_BASE_ID + 0x7 then
       map_option (\<lambda>cv. s\<lparr>cell_voltages := cv\<rparr>) (cell_voltages_loop 0 m (cell_voltages s))
     else if i = DRIVER_CONTROLS_ID then
       (let ig = (d ! 0 AND 0x01 \<noteq> 0);
            s1 = (if ignition_demand s \<noteq> ig
                  then s\<lparr>previous_ignition_demand := ignition_demand s, ignition_demand := ig\<rparr>
                  else s)
        in Some (s1\<lparr>solar_demand := (d ! 0 AND 0x08 \<noteq> 0)\<rparr>))
     else if i = 0x520 then
       Some (restart_IVT_timer now (s\<lparr>ivt_front := (ivt_front s)\<lparr>current := ivt_value d\<rparr>\<rparr>))
     else if i = 0x521 then Some (s\<lparr>ivt_front := (ivt_front s)\<lparr>voltage1 := ivt_value d\<rparr>\<rparr>)
     else if 0x522 \<le> i \<and> i \<le> 0x523 then Some (config_IVT s)
     else if i = 0x524 then Some (s\<lparr>ivt_front := (ivt_front s)\<lparr>temperature := ivt_value d\<rparr>\<rparr>)
     else if i = 0x525 then Some (s\<lparr>ivt_front := (ivt_front s)\<lparr>power_ivt := ivt_value d\<rparr>\<rparr>)
     else if i = 0x526 then Some (s\<lparr>ivt_front := (ivt_front s)\<lparr>charge := ivt_value d\<rparr>\<rparr>)
     else if i = 0x527 then Some (s\<lparr>ivt_front := (ivt_front s)\<lparr>energy := ivt_value d\<rparr>\<rparr>)
     else if i = 0x530 then
       Some (restart_IVT_timer now (s\<lparr>ivt_rear := (ivt_rear s)\<lparr>current := ivt_value d\<rparr>\<rparr>))
     else if i = 0x531 then Some (s\<lparr>ivt_rear := (ivt_rear s)\<lparr>voltage1 := ivt_value d\<rparr>\<rparr>)
     else if 0x532 \<le> i \<and> i \<le> 0x533 then Some (config_IVT s)
     else if i = 0x534 then Some (s\<lparr>ivt_rear := (ivt_rear s)\<lparr>temperature := ivt_value d\<rparr>\<rparr>)
     else if i = 0x535 then Some (s\<lparr>ivt_rear := (ivt_rear s)\<lparr>power_ivt := ivt_value d\<rparr>\<rparr>)
     else if i = 0x536 then Some (s\<lparr>ivt_rear := (ivt_rear s)\<lparr>charge := ivt_value d\<rparr>\<rparr>)
     else if i = 0x537 then Some (s\<lparr>ivt_rear := (ivt_rear s)\<lparr>energy := ivt_value d\<rparr>\<rparr>)
     else if i = 0x550 then
       map_option (\<lambda>ct. s\<lparr>cell_temperatures := ct\<rparr>)
         (cell_temperatures_loop 0 0 m (cell_temperatures s))
     else if i = 0x562 then
       map_option (\<lambda>ct. s\<lparr>cell_temperatures := ct\<rparr>)
         (cell_temperatures_loop 1 0 m (cell_temperatures s))
     else Some s)"

text \<open>\<open>set_heartbeat_flag\<close>, attached to the 1 Hz ticker.\<close>

definition set_heartbeat_flag :: "state \<Rightarrow> state" where
  "set_heartbeat_flag s = s\<lparr>heartbeat_flag := True\<rparr>"

section \<open>Interrupts that pre-empt the main thread\<close>

fun handle_interrupt :: "interrupt \<Rightarrow> state \<Rightarrow> state option" where
  "handle_interrupt (Rx now m) s = CANRecieveRoutine now m s"
| "handle_interrupt Tick s = Some (set_heartbeat_flag s)"

text \<open>A batch of interrupts, served one after the other.\<close>

fun serve :: "interrupt list \<Rightarrow> state \<Rightarrow> state option" where
  "serve [] s = Some s"
| "serve (i # is) s =
     (case handle_interrupt i s of None \<Rightarrow> None | Some s' \<Rightarrow> serve is s')"

text \<open>
  A point of the main thread at which interrupts are let in: the next batch of
  \<open>irq_schedule\<close> is served (none once the schedule is used up). The model has such a point
  at every busy wait of the main thread (\<open>can_send\<close>, \<open>wait_us\<close>, the loop on \<open>prechg_detect\<close>)
  and between the calls of the main loop; the straight-line code of \<open>check_cells\<close> and
  \<open>update_BMU_status_array\<close> runs without one.
\<close>

definition window :: "state \<Rightarrow> state option" where
  "window s =
     (case irq_schedule s of
        [] \<Rightarrow> Some s
      | batch # rest \<Rightarrow> serve batch (s\<lparr>irq_schedule := rest\<rparr>))"

section \<open>The contactor sequencer\<close>

text \<open>
  \<open>precharge\<close> up to its first wait: \<open>discharge_state\<close> is cleared first, then the discharge
  relay is opened and the precharge relay closed.
\<close>

definition precharge_start :: "state \<Rightarrow> state" where
  "precharge_start s =
     s\<lparr>BMU := (BMU s)\<lparr>discharge_state := False\<rparr>, currently_precharging := True,
       dischg_disable := True, prechg_enable := True\<rparr>"

text \<open>
  \<open>while(!prechg_detect);\<close> polls an input pin; \<open>detect k\<close> is what the \<open>k\<close>-th poll reads.
  The loop returns at the first poll that reads high and never returns (\<open>None\<close>) when
  no poll does.
\<close>

partial_function (option) wait_prechg_detect :: "(nat \<Rightarrow> bool) \<Rightarrow> nat \<Rightarrow> nat option" where
  "wait_prechg_detect detect k =
     (if detect k then Some k else wait_prechg_detect detect (Suc k))"

declare wait_prechg_detect.simps [code]

text \<open>\<open>precharge\<close> after the loop (line 570): the main contactor closes.\<close>

definition precharge_close :: "state \<Rightarrow> state" where
  "precharge_close s = s\<lparr>hvdc_enable := True\<rparr>"

text \<open>
  \<open>precharge\<close> after its last wait (lines 577-586): the precharge relay opens,
  \<open>precharge_state\<close> is set last.
\<close>

definition precharge_finish :: "state \<Rightarrow> state" where
  "precharge_finish s =
     (let s1 = s\<lparr>prechg_enable := False\<rparr>;
          s2 = s1\<lparr>currently_precharging := False\<rparr>
      in s2\<lparr>BMU := (BMU s2)\<lparr>precharge_state := True\<rparr>\<rparr>)"

text \<open>
  \<open>precharge\<close>: interrupts are let in during \<open>wait_us(500000)\<close> and the loop on
  \<open>prechg_detect\<close>, and again during \<open>wait_us(100000)\<close>.
\<close>

definition precharge :: "(nat \<Rightarrow> bool) \<Rightarrow> state \<Rightarrow> state option" where
  "precharge detect s =
     (case window (precharge_start s) of
        None \<Rightarrow> None
      | Some s1 \<Rightarrow>
          (case wait_prechg_detect detect 0 of
             None \<Rightarrow> None
           | Some k \<Rightarrow>
               (case window (precharge_close s1) of
                  None \<Rightarrow> None
                | Some s2 \<Rightarrow> Some (precharge_finish s2))))"

text \<open>
  \<open>discharge\<close> up to its 100 ms wait: \<open>precharge_state\<close> is cleared first, then the precharge
  relay and the main contactor are opened.
\<close>

definition discharge_start :: "state \<Rightarrow> state" where
  "discharge_start s =
     (let s1 = s\<lparr>BMU := (BMU s)\<lparr>precharge_state := False\<rparr>\<rparr>;
          s2 = s1\<lparr>currently_discharging := True\<rparr>;
          s3 = s2\<lparr>prechg_enable := False\<rparr>
      in s3\<lparr>hvdc_enable := False\<rparr>)"

text \<open>\<open>discharge\<close> after the wait: the discharge relay closes, \<open>discharge_state\<close> is set last.\<close>

definition discharge_finish :: "state \<Rightarrow> state" where
  "discharge_finish s =
     (let s1 = s\<lparr>dischg_disable := False\<rparr>;
          s2 = s1\<lparr>currently_discharging := False\<rparr>
      in s2\<lparr>BMU := (BMU s2)\<lparr>discharge_state := True\<rparr>\<rparr>)"

text \<open>\<open>discharge\<close>: interrupts are let in during \<open>wait_us(100000)\<close>.\<close>

definition discharge :: "state \<Rightarrow> state option" where
  "discharge s =
     (case window (discharge_start s) of
        None \<Rightarrow> None
      | Some s1 \<Rightarrow> Some (discharge_finish s1))"

text \<open>The frame to \<open>0x34F\<close> carries the one byte of \<open>contactor_array\<close>.\<close>

definition contactor_msg :: "state \<Rightarrow> CANMessage" where
  "contactor_msg s = \<lparr>msg_id = 0x34F, msg_data = [contactor_array s]\<rparr>"

definition update_relays :: "(nat \<Rightarrow> bool) \<Rightarrow> state \<Rightarrow> state option" where
  "update_relays detect s =
     (if ignition_demand s \<and> \<not> previous_ignition_demand s \<and> safe_to_drive (BMU s) then
        (let s1 = s\<lparr>contactor_array := 0x01\<rparr>;
             s2 = s1\<lparr>contactor_indic := True\<rparr>
         in case window (can_send (contactor_msg s2) s2) of
              None \<Rightarrow> None
            | Some s3 \<Rightarrow>
                if \<not> precharge_state (BMU s3) then precharge detect s3 else Some s3)
      else
        (let s1 = s\<lparr>contactor_array := 0x00\<rparr>
         in case window (can_send (contactor_msg s1) s1) of
              None \<Rightarrow> None
            | Some s2 \<Rightarrow>
                (case (if \<not> discharge_state (BMU s2) then discharge s2 else Some s2) of
                   None \<Rightarrow> None
                 | Some s3 \<Rightarrow>
                     (let s4 = s3\<lparr>solar_enable :=
                                     (solar_demand s3 \<and> safe_to_drive (BMU s3))\<rparr>
                      in Some (s4\<lparr>solar_indic := solar_enable s4\<rparr>)))))"

text \<open>\<open>beat\<close>: the six status bytes go to \<open>0x400\<close>, then the relays are updated.\<close>

definition BMU_status_msg :: "state \<Rightarrow> CANMessage" where
  "BMU_status_msg s = \<lparr>msg_id = BMU_CAN_ID, msg_data = map (BMU_status_array s) [0..<6]\<rparr>"

definition beat :: "(nat \<Rightarrow> bool) \<Rightarrow> state \<Rightarrow> state option" where
  "beat detect s =
     (case window (can_send (BMU_status_msg s) s) of
        None \<Rightarrow> None
      | Some s1 \<Rightarrow> update_relays detect s1)"

section \<open>The safety evaluator\<close>

definition ivt_max_current :: "state \<Rightarrow> i32" where
  "ivt_max_current s =
     (if sint (current (ivt_front s)) > sint (current (ivt_rear s))
      then current (ivt_front s) else current (ivt_rear s))"

text \<open>As in the source, \<open>ivt_min_current\<close> has the comparison of \<open>ivt_max_current\<close>.\<close>

definition ivt_min_current :: "state \<Rightarrow> i32" where
  "ivt_min_current s =
     (if sint (current (ivt_front s)) > sint (current (ivt_rear s))
      then current (ivt_front s) else current (ivt_rear s))"

definition ivt_max_voltage1 :: "state \<Rightarrow> i32" where
  "ivt_max_voltage1 s =
     (if sint (voltage1 (ivt_front s)) > sint (voltage1 (ivt_rear s))
      then voltage1 (ivt_front s) else voltage1 (ivt_rear s))"

definition ivt_min_voltage1 :: "state \<Rightarrow> i32" where
  "ivt_min_voltage1 s =
     (if sint (voltage1 (ivt_front s)) < sint (voltage1 (ivt_rear s))
      then voltage1 (ivt_front s) else voltage1 (ivt_rear s))"

text \<open>\<open>check_cells\<close>, lines 666-680: the charging flag.\<close>

definition check_charging :: "state \<Rightarrow> state" where
  "check_charging s =
     (if sint (ivt_max_current s) < 0
      then s\<lparr>BMU := (BMU s)\<lparr>charging_state := True\<rparr>, charge_indic := True\<rparr>
      else s\<lparr>BMU := (BMU s)\<lparr>charging_state := False\<rparr>, charge_indic := False\<rparr>)"

text \<open>Lines 682-694: the current bounds.\<close>

definition check_current :: "state \<Rightarrow> state" where
  "check_current s =
     (if sint (ivt_max_current s) \<ge> MAX_DISCHARGE_MAH \<or> sint (ivt_min_current s) < MAX_CHARGE_MAH
      then s\<lparr>BMU := (BMU s)\<lparr>over_current := True\<rparr>\<rparr>
      else s\<lparr>BMU := (BMU s)\<lparr>over_current := False\<rparr>\<rparr>)"

text \<open>
  Lines 696-707: the thresholds of this pass come from the flags the previous pass left,
  then the two flags are cleared.
\<close>

definition set_voltage_thresholds :: "state \<Rightarrow> state" where
  "set_voltage_thresholds s =
     (let s1 = s\<lparr>temp_max_battery_pack_voltage_mv :=
                   (if over_voltage_flag s
                    then MAX_BATTERY_PACK_VOTAGE_MV + BATTERY_PACK_VOLTAGE_HYSTERESIS
                    else MAX_BATTERY_PACK_VOTAGE_MV)\<rparr>;
          s2 = s1\<lparr>temp_min_battery_pack_voltage_mv :=
                    (if under_voltage_flag s1
                     then MIN_BATTERY_PACK_VOLTAGE_MV - BATTERY_PACK_VOLTAGE_HYSTERESIS
                     else MIN_BATTERY_PACK_VOLTAGE_MV)\<rparr>
      in s2\<lparr>over_voltage_flag := False, under_voltage_flag := False\<rparr>)"

text \<open>Lines 737-755 (front) and 757-775 (rear): two independent tests each.\<close>

definition check_voltage :: "i32 \<Rightarrow> state \<Rightarrow> state" where
  "check_voltage v s =
     (let s1 = (if sint v > temp_max_battery_pack_voltage_mv s
                then s\<lparr>over_voltage_flag := True, BMU := (BMU s)\<lparr>over_voltage := True\<rparr>\<rparr>
                else s)
      in if sint v < temp_min_battery_pack_voltage_mv s1
         then s1\<lparr>under_voltage_flag := True, BMU := (BMU s1)\<lparr>under_voltage := True\<rparr>\<rparr>
         else s1)"

text \<open>Lines 777-780.\<close>

definition clear_voltage :: "state \<Rightarrow> state" where
  "clear_voltage s =
     (if over_voltage_flag s = False \<and> under_voltage_flag s = False
      then s\<lparr>BMU := (BMU s)\<lparr>under_voltage := False, over_voltage := False\<rparr>\<rparr>
      else s)"

text \<open>
  The temperatures are tenths of a degree, scaled by \<open>0.1\<close> before they are compared. The
  source computes the product in \<open>double\<close>; the model computes it exactly. On 32-bit
  readings the two agree in both comparisons: rounding is monotone and the only products
  within rounding distance of a bound, \<open>750 * 0.1\<close> and \<open>20 * 0.1\<close>, round to exactly
  \<open>75.0\<close> and \<open>2.0\<close>.
\<close>

definition celsius :: "i32 \<Rightarrow> real" where
  "celsius t = real_of_int (sint t) * 0.1"

text \<open>The two tests, \<open>(t*0.1) > MAX_IVT_TEMPERATURE\<close> and \<open>(t*0.1) < MIN_IVT_TEMPERATURE\<close>.\<close>

definition above_max_temperature :: "i32 \<Rightarrow> bool" where
  "above_max_temperature t = (celsius t > MAX_IVT_TEMPERATURE)"

definition below_min_temperature :: "i32 \<Rightarrow> bool" where
  "below_min_temperature t = (celsius t < MIN_IVT_TEMPERATURE)"

text \<open>
  Lines 792-811: the front IVT. As in the source, the under-temperature branch sets
  \<open>under_voltage_flag\<close>.
\<close>

definition check_front_temperature :: "state \<Rightarrow> state" where
  "check_front_temperature s =
     (let s1 = (if above_max_temperature (temperature (ivt_front s))
                then s\<lparr>over_temperature_flag := True,
                       BMU := (BMU s)\<lparr>over_temperature := True\<rparr>\<rparr>
                else s)
      in if below_min_temperature (temperature (ivt_front s1))
         then s1\<lparr>under_voltage_flag := True, BMU := (BMU s1)\<lparr>under_temperature := True\<rparr>\<rparr>
         else s1)"

text \<open>Lines 814-833: the rear IVT.\<close>

definition check_rear_temperature :: "state \<Rightarrow> state" where
  "check_rear_temperature s =
     (let s1 = (if above_max_temperature (temperature (ivt_rear s))
                then s\<lparr>over_temperature_flag := True,
                       BMU := (BMU s)\<lparr>over_temperature := True\<rparr>\<rparr>
                else s)
      in if below_min_temperature (temperature (ivt_rear s1))
         then s1\<lparr>under_temperature_flag := True,
                 BMU := (BMU s1)\<lparr>under_temperature := True\<rparr>\<rparr>
         else s1)"

text \<open>Lines 835-838.\<close>

definition clear_temperature :: "state \<Rightarrow> state" where
  "clear_temperature s =
     (if over_temperature_flag s = False \<and> under_temperature_flag s = False
      then s\<lparr>BMU := (BMU s)\<lparr>under_temperature := False, over_temperature := False\<rparr>\<rparr>
      else s)"

definition check_cells :: "state \<Rightarrow> state" where
  "check_cells s =
     (let s1 = check_charging s;
          s2 = check_current s1;
          s3 = set_voltage_thresholds s2;
          s4 = check_voltage (voltage1 (ivt_front s3)) s3;
          s5 = check_voltage (voltage1 (ivt_rear s4)) s4;
          s6 = clear_voltage s5;
          s7 = check_front_temperature s6;
          s8 = check_rear_temperature s7
      in clear_temperature s8)"

section \<open>The status array\<close>

text \<open>\<open>BMU_status_array[k] |= 1<<i\<close> and \<open>BMU_status_array[k] &= ~(1<<i)\<close>.\<close>

definition status_set :: "nat \<Rightarrow> nat \<Rightarrow> state \<Rightarrow> state" where
  "status_set k i s =
     s\<lparr>BMU_status_array := (BMU_status_array s)(k := BMU_status_array s k OR push_bit i 1)\<rparr>"

definition status_clear :: "nat \<Rightarrow> nat \<Rightarrow> state \<Rightarrow> state" where
  "status_clear k i s =
     s\<lparr>BMU_status_array :=
         (BMU_status_array s)(k := BMU_status_array s k AND NOT (push_bit i 1))\<rparr>"

text \<open>The condition of line 883, the timeout the evaluator raises.\<close>

definition ivt_timeout :: "state \<Rightarrow> bool" where
  "ivt_timeout s = (IVT_time s > IVT_TIMEOUT_MS)"

text \<open>One fault test of lines 892-925: bit \<open>i\<close> of byte 0 follows the fault, which raises
  \<open>error_flag\<close>.\<close>

definition status_fault :: "bool \<Rightarrow> nat \<Rightarrow> state \<Rightarrow> state" where
  "status_fault fault i s =
     (if fault then (status_set 0 i s)\<lparr>error_flag := True\<rparr> else status_clear 0 i s)"

text \<open>One flag test of lines 944-956: bit \<open>i\<close> of byte 1 follows the flag.\<close>

definition status_mode :: "bool \<Rightarrow> nat \<Rightarrow> state \<Rightarrow> state" where
  "status_mode flag i s = (if flag then status_set 1 i s else status_clear 1 i s)"

definition update_BMU_status_array :: "state \<Rightarrow> state" where
  "update_BMU_status_array s =
     (let s1 = s\<lparr>error_flag := False\<rparr>;
          s2 = (if ivt_timeout s1 then s1\<lparr>error_flag := True\<rparr> else s1);
          s3 = status_fault (over_current (BMU s2)) 0 s2;
          s4 = status_fault (under_voltage (BMU s3)) 1 s3;
          s5 = status_fault (over_voltage (BMU s4)) 2 s4;
          s6 = status_fault (under_temperature (BMU s5)) 3 s5;
          s7 = status_fault (over_temperature (BMU s6)) 4 s6;
          s8 = (if error_flag s7 then
                  (let t1 = s7\<lparr>BMU := (BMU s7)\<lparr>safe_to_drive := False\<rparr>\<rparr>;
                       t2 = status_clear 0 5 t1;
                       t3 = t2\<lparr>safe_indic := False\<rparr>
                   in if ignition_demand t3
                      then t3\<lparr>ignition_demand := False, previous_ignition_demand := True\<rparr>
                      else t3)
                else
                  (let t1 = s7\<lparr>BMU := (BMU s7)\<lparr>safe_to_drive := True\<rparr>\<rparr>;
                       t2 = status_set 0 5 t1
                   in t2\<lparr>safe_indic := True\<rparr>));
          s9 = status_mode (charging_state (BMU s8)) 0 s8;
          s10 = status_mode (precharge_state (BMU s9)) 1 s9;
          s11 = status_mode (discharge_state (BMU s10)) 2 s10
      in s11\<lparr>BMU_status_array := (BMU_status_array s11)
               (2 := fan1_state (BMU s11), 3 := fan2_state (BMU s11),
                4 := fan3_state (BMU s11), 5 := fan4_state (BMU s11))\<rparr>)"

section \<open>The main loop and the runs of the program\<close>

text \<open>
  One iteration of \<open>while(1)\<close> in \<open>main\<close>, pre-empted by the interrupts of \<open>irqs\<close>: one batch
  after \<open>check_cells\<close>, one after \<open>update_BMU_status_array\<close>, then one at each busy wait
  that the iteration reaches, in program order.
\<close>

definition main_loop_body ::
  "(nat \<Rightarrow> bool) \<Rightarrow> interrupt list list \<Rightarrow> state \<Rightarrow> state option" where
  "main_loop_body detect irqs s =
     (case window (check_cells (s\<lparr>irq_schedule := irqs\<rparr>)) of
        None \<Rightarrow> None
      | Some s1 \<Rightarrow>
     (case window (update_BMU_status_array s1) of
        None \<Rightarrow> None
      | Some s2 \<Rightarrow>
     (case (if heartbeat_flag s2 then beat detect (s2\<lparr>heartbeat_flag := False\<rparr>)
            else Some s2) of
        None \<Rightarrow> None
      | Some s3 \<Rightarrow>
     (case (if error_flag s3 \<and> previous_status s3 \<noteq> BMU_status_array s3 0
            then beat detect s3 else Some s3) of
        None \<Rightarrow> None
      | Some s4 \<Rightarrow>
          Some (s4\<lparr>previous_status := BMU_status_array s4 0, irq_schedule := []\<rparr>)))))"

text \<open>
  What happens to the program: an interrupt is served between two iterations of the
  main loop, or the main loop runs one iteration, in which the input pin \<open>prechg_detect\<close>
  reads as the given sequence of polls and the given interrupts pre-empt the main
  thread. A run is a sequence of such events from boot; it ends in \<open>None\<close> when a store
  leaves its array or an iteration never returns.
\<close>

datatype event = Irq interrupt | Loop "nat \<Rightarrow> bool" "interrupt list list"

fun exec :: "event \<Rightarrow> state \<Rightarrow> state option" where
  "exec (Irq i) s = handle_interrupt i s"
| "exec (Loop detect irqs) s = main_loop_body detect irqs s"

fun run :: "event list \<Rightarrow> state \<Rightarrow> state option" where
  "run [] s = Some s"
| "run (e # es) s = (case exec e s of None \<Rightarrow> None | Some s' \<Rightarrow> run es s')"

section \<open>Notions used by the properties\<close>

text \<open>The arrays have the sizes of their declarations (lines 129-130).\<close>

definition arrays_declared :: "state \<Rightarrow> bool" where
  "arrays_declared s =
     (length (cell_voltages s) = 32 \<and> length (cell_temperatures s) = 2
      \<and> list_all (\<lambda>row. length row = 8) (cell_temperatures s))"

text \<open>
  What relates the relay outputs to the sequencer flags between two operations: the two
  flags are not both set, and the main contactor is closed only in the precharged state.
\<close>

definition relay_inv :: "state \<Rightarrow> bool" where
  "relay_inv s =
     (\<not> (precharge_state (BMU s) \<and> discharge_state (BMU s))
      \<and> (hvdc_enable s \<longrightarrow> precharge_state (BMU s)))"

text \<open>
  What holds between two iterations of the main loop: besides \<open>relay_inv\<close>, the contactors
  are commanded on or the main contactor is closed only while \<open>safe_to_drive\<close> and
  \<open>precharge_state\<close> hold; \<open>previous_status\<close> is status byte 0, whose bit 5 is \<open>safe_to_drive\<close>.
\<close>

definition command_inv :: "state \<Rightarrow> bool" where
  "command_inv s =
     (relay_inv s
      \<and> (contactor_array s = 0x01 \<or> hvdc_enable s \<longrightarrow>
           safe_to_drive (BMU s) \<and> precharge_state (BMU s))
      \<and> previous_status s = BMU_status_array s 0
      \<and> bit (BMU_status_array s 0) 5 = safe_to_drive (BMU s))"

text \<open>
  What no interrupt writes: the supervisor state, the relay and solar outputs, the
  contactor command, \<open>error_flag\<close> and the status bytes. An interrupt can only add frames
  to the log of written frames.
\<close>

definition main_thread_owned :: "state \<Rightarrow> state \<Rightarrow> bool" where
  "main_thread_owned s s' =
     (BMU s' = BMU s \<and> hvdc_enable s' = hvdc_enable s \<and> contactor_array s' = contactor_array s
      \<and> solar_enable s' = solar_enable s \<and> error_flag s' = error_flag s
      \<and> previous_status s' = previous_status s \<and> BMU_status_array s' = BMU_status_array s
      \<and> (\<exists>sent. can_tx s' = can_tx s @ sent))"

text \<open>The guard of the first branch of \<open>update_relays\<close> (line 618).\<close>

definition driving_guard :: "state \<Rightarrow> bool" where
  "driving_guard s =
     (ignition_demand s \<and> \<not> previous_ignition_demand s \<and> safe_to_drive (BMU s))"

text \<open>
  The time the freshness timer has been running at clock reading \<open>now\<close>: the milliseconds
  since the most recent frame \<open>0x520\<close> or \<open>0x530\<close> (since boot when there was none).
\<close>

definition ms_since_current_frame :: "nat \<Rightarrow> state \<Rightarrow> nat" where
  "ms_since_current_frame now s = now - IVT_timer s"

text \<open>The parts of the state that the concrete runs below are observed through.\<close>

definition contactor_view :: "state \<Rightarrow> u8 \<times> bool \<times> bool \<times> bool \<times> bool" where
  "contactor_view s =
     (contactor_array s, hvdc_enable s, ignition_demand s, safe_to_drive (BMU s),
      precharge_state (BMU s))"


definition demand_view :: "state \<Rightarrow> bool \<times> bool \<times> bool" where
  "demand_view s = (error_flag s, ignition_demand s, previous_ignition_demand s)"

definition sequencer_view :: "state \<Rightarrow> bool \<times> bool" where
  "sequencer_view s = (precharge_state (BMU s), discharge_state (BMU s))"

definition timeout_view :: "nat \<Rightarrow> state \<Rightarrow> nat \<times> 32 word \<times> bool \<times> bool \<times> bool" where
  "timeout_view now s =
     (ms_since_current_frame now s, IVT_time s, ivt_timeout s, error_flag s,
      safe_to_drive (BMU s))"

definition current_view :: "state \<Rightarrow> int \<times> int \<times> bool" where
  "current_view s =
     (sint (current (ivt_front s)), sint (current (ivt_rear s)),
      over_current (BMU (check_cells s)))"

definition voltage_view :: "state \<Rightarrow> int \<times> int \<times> bool \<times> int \<times> bool" where
  "voltage_view s =
     (sint (voltage1 (ivt_front s)), sint (voltage1 (ivt_rear s)), over_voltage_flag s,
      temp_max_battery_pack_voltage_mv s, over_voltage (BMU s))"

definition temperature_view ::
  "state \<Rightarrow> int \<times> int \<times> bool \<times> bool \<times> bool \<times> bool" where
  "temperature_view s =
     (sint (temperature (ivt_front s)), sint (temperature (ivt_rear s)),
      below_min_temperature (temperature (ivt_front s)),
      under_temperature_flag s, under_voltage_flag s, under_temperature (BMU s))"

section \<open>Concrete frames and runs\<close>

text \<open>The pin \<open>prechg_detect\<close> reads high at every poll.\<close>

definition detect_high :: "nat \<Rightarrow> bool" where
  "detect_high k = True"

text \<open>Driver-controls frames: bit 0 of byte 0 is the ignition, bit 3 the solar demand.\<close>

definition ignition_on :: CANMessage where
  "ignition_on = \<lparr>msg_id = 0x500, msg_data = [0x01, 0, 0, 0, 0, 0, 0, 0]\<rparr>"

definition ignition_off :: CANMessage where
  "ignition_off = \<lparr>msg_id = 0x500, msg_data = [0x00, 0, 0, 0, 0, 0, 0, 0]\<rparr>"



text \<open>Both packs report 60 000 mV (\<open>0x0000EA60\<close>) and 25.0 degrees (\<open>0x000000FA\<close>).\<close>

definition healthy_frames :: "event list" where
  "healthy_frames =
     [Irq (Rx 10 \<lparr>msg_id = 0x521, msg_data = [0, 0, 0x00, 0x00, 0xEA, 0x60, 0, 0]\<rparr>),
      Irq (Rx 20 \<lparr>msg_id = 0x531, msg_data = [0, 0, 0x00, 0x00, 0xEA, 0x60, 0, 0]\<rparr>),
      Irq (Rx 30 \<lparr>msg_id = 0x524, msg_data = [0, 0, 0x00, 0x00, 0x00, 0xFA, 0, 0]\<rparr>),
      Irq (Rx 40 \<lparr>msg_id = 0x534, msg_data = [0, 0, 0x00, 0x00, 0x00, 0xFA, 0, 0]\<rparr>)]"

text \<open>The ignition is switched on and the heartbeat fires: the next iteration beats.\<close>

definition ignition_run :: "event list" where
  "ignition_run = healthy_frames @ [Irq (Rx 50 ignition_on), Irq Tick]"

text \<open>The ignition is switched on and an iteration without a beat has found the packs safe.\<close>

definition ignition_demand_run :: "event list" where
  "ignition_demand_run = healthy_frames @ [Irq (Rx 50 ignition_on), Loop detect_high []]"


text \<open>The car is driving, then the driver controls report the ignition off.\<close>

definition drive_then_ignition_off :: "event list" where
  "drive_then_ignition_off = ignition_run @ [Loop detect_high [], Irq (Rx 60 ignition_off)]"

text \<open>
  The ignition is switched on and the next iteration beats and precharges; while
  \<open>precharge\<close> waits for the bus (the fifth point of that iteration at which interrupts are
  let in), a driver-controls frame reports the ignition off.
\<close>

definition ignition_off_during_precharge :: "event list" where
  "ignition_off_during_precharge =
     ignition_run @ [Loop detect_high [[], [], [], [], [Rx 600 ignition_off]]]"


text \<open>A fault is pending (the packs report 0 mV at boot) while the ignition is on.\<close>

definition ignition_before_first_pass :: "event list" where
  "ignition_before_first_pass = [Irq (Rx 50 ignition_on)]"

text \<open>
  One front current frame of 0 mA arrives 100 ms after boot, then the IVTs fall silent
  on \<open>0x520\<close> and \<open>0x530\<close>; the main loop runs on.
\<close>

definition current_frames_stop :: "event list" where
  "current_frames_stop =
     healthy_frames @ [Irq (Rx 100 \<lparr>msg_id = 0x520, msg_data = [0, 0, 0, 0, 0, 0, 0, 0]\<rparr>),
                       Loop detect_high [], Irq Tick, Loop detect_high []]"

text \<open>The first front current frame arrives 1500 ms after boot.\<close>

definition current_frame_late :: "event list" where
  "current_frame_late =
     healthy_frames @ [Irq (Rx 1500 \<lparr>msg_id = 0x520, msg_data = [0, 0, 0, 0, 0, 0, 0, 0]\<rparr>),
                       Loop detect_high []]"

text \<open>No frame at all after boot.\<close>

definition cold_boot_no_traffic :: "event list" where
  "cold_boot_no_traffic = [Loop detect_high [], Irq Tick, Loop detect_high []]"

text \<open>The front pack is charged with 150 000 mA (\<open>-150000 = 0xFFFDB610\<close>), the rear idle.\<close>

definition front_charging_150A :: "event list" where
  "front_charging_150A =
     [Irq (Rx 10 \<lparr>msg_id = 0x520, msg_data = [0, 0, 0xFF, 0xFD, 0xB6, 0x10, 0, 0]\<rparr>)]"

text \<open>The front pack reports 67 100 mV (\<open>0x0001061C\<close>), the rear 60 000 mV, both 25.0 degrees.\<close>

definition front_67100mV :: "event list" where
  "front_67100mV =
     [Irq (Rx 10 \<lparr>msg_id = 0x521, msg_data = [0, 0, 0x00, 0x01, 0x06, 0x1C, 0, 0]\<rparr>),
      Irq (Rx 20 \<lparr>msg_id = 0x531, msg_data = [0, 0, 0x00, 0x00, 0xEA, 0x60, 0, 0]\<rparr>),
      Irq (Rx 30 \<lparr>msg_id = 0x524, msg_data = [0, 0, 0x00, 0x00, 0x00, 0xFA, 0, 0]\<rparr>),
      Irq (Rx 40 \<lparr>msg_id = 0x534, msg_data = [0, 0, 0x00, 0x00, 0x00, 0xFA, 0, 0]\<rparr>)]"

text \<open>Both packs at 60 000 mV; the front IVT reports 1.0 degree, the rear 25.0 degrees.\<close>

definition front_1_degree :: "event list" where
  "front_1_degree =
     [Irq (Rx 10 \<lparr>msg_id = 0x521, msg_data = [0, 0, 0x00, 0x00, 0xEA, 0x60, 0, 0]\<rparr>),
      Irq (Rx 20 \<lparr>msg_id = 0x531, msg_data = [0, 0, 0x00, 0x00, 0xEA, 0x60, 0, 0]\<rparr>),
      Irq (Rx 30 \<lparr>msg_id = 0x524, msg_data = [0, 0, 0x00, 0x00, 0x00, 0x0A, 0, 0]\<rparr>),
      Irq (Rx 40 \<lparr>msg_id = 0x534, msg_data = [0, 0, 0x00, 0x00, 0x00, 0xFA, 0, 0]\<rparr>)]"

text \<open>A frame for the last four cells.\<close>

definition last_cells_frame :: CANMessage where
  "last_cells_frame = \<lparr>msg_id = 0x367, msg_data = [1, 2, 3, 4, 5, 6, 7, 8]\<rparr>"

section \<open>Evaluating the temperature tests\<close>

text \<open>On the integer reading, the two temperature tests are comparisons with 750 and 20.\<close>

lemma above_max_temperature_code [code]: "above_max_temperature t = (750 < sint t)"
proof -
  have "(real_of_int (sint t) * 0.1 > 75) = (750 < sint t)" by linarith
  then show ?thesis
    unfolding above_max_temperature_def celsius_def .
qed

lemma below_min_temperature_code [code]: "below_min_temperature t = (sint t < 20)"
proof -
  have "(real_of_int (sint t) * 0.1 < 2) = (sint t < 20)" by linarith
  then show ?thesis
    unfolding below_min_temperature_def celsius_def .
qed

section \<open>The status array after an evaluator pass\<close>

lemma status_set_fields [simp]:
  "BMU (status_set k i s) = BMU s"
  "error_flag (status_set k i s) = error_flag s"
  "ignition_demand (status_set k i s) = ignition_demand s"
  "previous_ignition_demand (status_set k i s) = previous_ignition_demand s"
  "IVT_time (status_set k i s) = IVT_time s"
  by (simp_all add: status_set_def)

lemma status_clear_fields [simp]:
  "BMU (status_clear k i s) = BMU s"
  "error_flag (status_clear k i s) = error_flag s"
  "ignition_demand (status_clear k i s) = ignition_demand s"
  "previous_ignition_demand (status_clear k i s) = previous_ignition_demand s"
  "IVT_time (status_clear k i s) = IVT_time s"
  by (simp_all add: status_clear_def)

lemma status_fault_fields [simp]:
  "BMU (status_fault f i s) = BMU s"
  "error_flag (status_fault f i s) = (f \<or> error_flag s)"
  "ignition_demand (status_fault f i s) = ignition_demand s"
  "previous_ignition_demand (status_fault f i s) = previous_ignition_demand s"
  "IVT_time (status_fault f i s) = IVT_time s"
  by (simp_all add: status_fault_def)

lemma status_mode_fields [simp]:
  "BMU (status_mode f i s) = BMU s"
  "error_flag (status_mode f i s) = error_flag s"
  "ignition_demand (status_mode f i s) = ignition_demand s"
  "previous_ignition_demand (status_mode f i s) = previous_ignition_demand s"
  "IVT_time (status_mode f i s) = IVT_time s"
  by (simp_all add: status_mode_def)

lemma status_mode_byte0 [simp]:
  "BMU_status_array (status_mode f i s) 0 = BMU_status_array s 0"
  by (simp add: status_mode_def status_set_def status_clear_def)

lemma status_bit5 [simp]:
  "bit (BMU_status_array (status_set 0 5 s) 0) 5"
  "\<not> bit (BMU_status_array (status_clear 0 5 s) 0) 5"
  by (simp_all add: status_set_def status_clear_def bit_simps)

lemma update_BMU_status_array_error_flag:
  "error_flag (update_BMU_status_array s) =
     (over_current (BMU s) \<or> under_voltage (BMU s) \<or> over_voltage (BMU s)
      \<or> under_temperature (BMU s) \<or> over_temperature (BMU s) \<or> ivt_timeout s)"
  by (auto simp add: update_BMU_status_array_def Let_def ivt_timeout_def)

lemma update_BMU_status_array_safe:
  "safe_to_drive (BMU (update_BMU_status_array s)) = (\<not> error_flag (update_BMU_status_array s))"
  by (simp add: update_BMU_status_array_def Let_def)

lemma update_BMU_status_array_faults:
  "over_current (BMU (update_BMU_status_array s)) = over_current (BMU s)"
  "under_voltage (BMU (update_BMU_status_array s)) = under_voltage (BMU s)"
  "over_voltage (BMU (update_BMU_status_array s)) = over_voltage (BMU s)"
  "under_temperature (BMU (update_BMU_status_array s)) = under_temperature (BMU s)"
  "over_temperature (BMU (update_BMU_status_array s)) = over_temperature (BMU s)"
  "ivt_timeout (update_BMU_status_array s) = ivt_timeout s"
  by (simp_all add: update_BMU_status_array_def Let_def ivt_timeout_def)

lemma update_BMU_status_array_bit5:
  "bit (BMU_status_array (update_BMU_status_array s) 0) 5
     = safe_to_drive (BMU (update_BMU_status_array s))"
  by (simp add: update_BMU_status_array_def Let_def)

text \<open>
  C1. After every pass of \<open>update_BMU_status_array\<close>, \<open>safe_to_drive\<close> is the negation of
  \<open>error_flag\<close>; \<open>error_flag\<close> is the disjunction of the five fault bits and of the IVT
  timeout condition, none of which the pass changes; so \<open>safe_to_drive\<close> holds exactly
  when no fault bit is set and the timeout is not raised; and bit 5 of status byte 0
  equals \<open>safe_to_drive\<close>.
\<close>

theorem C1_safe_to_drive_iff_no_error:
  "safe_to_drive (BMU (update_BMU_status_array s)) = (\<not> error_flag (update_BMU_status_array s))
   \<and> error_flag (update_BMU_status_array s) =
       (over_current (BMU s) \<or> under_voltage (BMU s) \<or> over_voltage (BMU s)
        \<or> under_temperature (BMU s) \<or> over_temperature (BMU s) \<or> ivt_timeout s)
   \<and> safe_to_drive (BMU (update_BMU_status_array s)) =
       (\<not> over_current (BMU (update_BMU_status_array s))
        \<and> \<not> over_voltage (BMU (update_BMU_status_array s))
        \<and> \<not> under_voltage (BMU (update_BMU_status_array s))
        \<and> \<not> over_temperature (BMU (update_BMU_status_array s))
        \<and> \<not> under_temperature (BMU (update_BMU_status_array s))
        \<and> \<not> ivt_timeout (update_BMU_status_array s))
   \<and> bit (BMU_status_array (update_BMU_status_array s) 0) 5 =
       safe_to_drive (BMU (update_BMU_status_array s))"
  unfolding update_BMU_status_array_bit5 update_BMU_status_array_faults
    update_BMU_status_array_safe update_BMU_status_array_error_flag
  by blast

section \<open>The forced clear of the ignition demand\<close>

lemma update_BMU_status_array_demands:
  "ignition_demand (update_BMU_status_array s) =
     (ignition_demand s \<and> \<not> error_flag (update_BMU_status_array s))"
  "previous_ignition_demand (update_BMU_status_array s) =
     (previous_ignition_demand s \<or> ignition_demand s \<and> error_flag (update_BMU_status_array s))"
  by (auto simp add: update_BMU_status_array_def Let_def)

lemma CANRecieveRoutine_driver_controls:
  "msg_id m = DRIVER_CONTROLS_ID \<Longrightarrow>
   \<exists>s'. CANRecieveRoutine now m s = Some s'
     \<and> ignition_demand s' = (msg_data m ! 0 AND 0x01 \<noteq> 0)
     \<and> previous_ignition_demand s' =
         (if ignition_demand s \<noteq> (msg_data m ! 0 AND 0x01 \<noteq> 0)
          then ignition_demand s else previous_ignition_demand s)"
  by (simp add: CANRecieveRoutine_def Let_def)

text \<open>
  C9. When a pass of \<open>update_BMU_status_array\<close> ends with \<open>error_flag\<close> raised: if
  \<open>ignition_demand\<close> was true, the pass clears it and sets \<open>previous_ignition_demand\<close>; if it
  was already false, both flags are as before. After the forced clear, a driver-controls
  frame with the ignition off followed by one with the ignition on leaves
  \<open>ignition_demand \<and> \<not> previous_ignition_demand\<close>, the rising edge \<open>update_relays\<close> tests.
\<close>

theorem C9_fault_clears_ignition:
  assumes "error_flag (update_BMU_status_array s)"
  shows "(ignition_demand s \<longrightarrow>
            \<not> ignition_demand (update_BMU_status_array s)
            \<and> previous_ignition_demand (update_BMU_status_array s))
       \<and> (\<not> ignition_demand s \<longrightarrow>
            ignition_demand (update_BMU_status_array s) = ignition_demand s
            \<and> previous_ignition_demand (update_BMU_status_array s) = previous_ignition_demand s)
       \<and> (ignition_demand s
          \<and> msg_id off = DRIVER_CONTROLS_ID \<and> msg_data off ! 0 AND 0x01 = 0
          \<and> msg_id on = DRIVER_CONTROLS_ID \<and> msg_data on ! 0 AND 0x01 \<noteq> 0 \<longrightarrow>
            (\<exists>s1 s2. CANRecieveRoutine t1 off (update_BMU_status_array s) = Some s1
               \<and> CANRecieveRoutine t2 on s1 = Some s2
               \<and> ignition_demand s2 \<and> \<not> previous_ignition_demand s2))"
proof (intro conjI impI)
  assume "ignition_demand s"
  with assms show "\<not> ignition_demand (update_BMU_status_array s)"
    and "previous_ignition_demand (update_BMU_status_array s)"
    by (simp_all add: update_BMU_status_array_demands)
next
  assume "\<not> ignition_demand s"
  then show "ignition_demand (update_BMU_status_array s) = ignition_demand s"
    and "previous_ignition_demand (update_BMU_status_array s) = previous_ignition_demand s"
    by (simp_all add: update_BMU_status_array_demands)
next
  assume fr: "ignition_demand s
          \<and> msg_id off = DRIVER_CONTROLS_ID \<and> msg_data off ! 0 AND 0x01 = 0
          \<and> msg_id on = DRIVER_CONTROLS_ID \<and> msg_data on ! 0 AND 0x01 \<noteq> 0"
  from fr CANRecieveRoutine_driver_controls [of off t1 "update_BMU_status_array s"]
  obtain s1 where s1: "CANRecieveRoutine t1 off (update_BMU_status_array s) = Some s1"
    and i1: "\<not> ignition_demand s1"
    by auto
  from fr CANRecieveRoutine_driver_controls [of on t2 s1]
  obtain s2 where s2: "CANRecieveRoutine t2 on s1 = Some s2"
    and i2: "ignition_demand s2" and p2: "previous_ignition_demand s2 = ignition_demand s1"
    using i1 by auto
  from s1 s2 i1 i2 p2
  show "\<exists>s1 s2. CANRecieveRoutine t1 off (update_BMU_status_array s) = Some s1
               \<and> CANRecieveRoutine t2 on s1 = Some s2
               \<and> ignition_demand s2 \<and> \<not> previous_ignition_demand s2"
    by auto
qed

theorem C9_fault_clears_ignition_witness:
  "\<exists>s. map_option check_cells (run ignition_before_first_pass init_state) = Some s
     \<and> error_flag (update_BMU_status_array s) \<and> ignition_demand s
     \<and> \<not> ignition_demand (update_BMU_status_array s)
     \<and> previous_ignition_demand (update_BMU_status_array s)
     \<and> (\<exists>s1 s2. CANRecieveRoutine 2000 ignition_off (update_BMU_status_array s) = Some s1
           \<and> CANRecieveRoutine 3000 ignition_on s1 = Some s2
           \<and> ignition_demand s2 \<and> \<not> previous_ignition_demand s2)"
proof -
  have "map_option demand_view (map_option update_BMU_status_array
          (map_option check_cells (run ignition_before_first_pass init_state)))
        = Some (True, False, True)"
    by code_simp
  moreover have "map_option ignition_demand
          (map_option check_cells (run ignition_before_first_pass init_state)) = Some True"
    by code_simp
  ultimately obtain s
    where s: "map_option check_cells (run ignition_before_first_pass init_state) = Some s"
      and e: "error_flag (update_BMU_status_array s)" and i: "ignition_demand s"
    by (auto simp add: demand_view_def)
  have off: "msg_id ignition_off = DRIVER_CONTROLS_ID \<and> msg_data ignition_off ! 0 AND 0x01 = 0"
    by (simp add: ignition_off_def)
  have on: "msg_id ignition_on = DRIVER_CONTROLS_ID \<and> msg_data ignition_on ! 0 AND 0x01 \<noteq> 0"
    by (simp add: ignition_on_def)
  from C9_fault_clears_ignition [OF e, of ignition_off ignition_on 2000 3000] s e i off on
  show ?thesis by blast
qed

section \<open>The sequencer flags and the relay outputs\<close>

lemma status_set_relays [simp]:
  "hvdc_enable (status_set k i s) = hvdc_enable (s)"
  "contactor_array (status_set k i s) = contactor_array (s)"
  "previous_status (status_set k i s) = previous_status (s)"
  by (simp_all add: status_set_def)

lemma status_clear_relays [simp]:
  "hvdc_enable (status_clear k i s) = hvdc_enable (s)"
  "contactor_array (status_clear k i s) = contactor_array (s)"
  "previous_status (status_clear k i s) = previous_status (s)"
  by (simp_all add: status_clear_def)

lemma status_fault_relays [simp]:
  "hvdc_enable (status_fault f i s) = hvdc_enable (s)"
  "contactor_array (status_fault f i s) = contactor_array (s)"
  "previous_status (status_fault f i s) = previous_status (s)"
  by (simp_all add: status_fault_def)

lemma status_mode_relays [simp]:
  "hvdc_enable (status_mode f i s) = hvdc_enable (s)"
  "contactor_array (status_mode f i s) = contactor_array (s)"
  "previous_status (status_mode f i s) = previous_status (s)"
  by (simp_all add: status_mode_def)

lemma check_charging_relays [simp]:
  "precharge_state (BMU (check_charging s)) = precharge_state (BMU (s))"
  "discharge_state (BMU (check_charging s)) = discharge_state (BMU (s))"
  "hvdc_enable (check_charging s) = hvdc_enable (s)"
  "contactor_array (check_charging s) = contactor_array (s)"
  "previous_status (check_charging s) = previous_status (s)"
  by (simp_all add: check_charging_def Let_def)

lemma check_current_relays [simp]:
  "precharge_state (BMU (check_current s)) = precharge_state (BMU (s))"
  "discharge_state (BMU (check_current s)) = discharge_state (BMU (s))"
  "hvdc_enable (check_current s) = hvdc_enable (s)"
  "contactor_array (check_current s) = contactor_array (s)"
  "previous_status (check_current s) = previous_status (s)"
  by (simp_all add: check_current_def Let_def)

lemma set_voltage_thresholds_relays [simp]:
  "precharge_state (BMU (set_voltage_thresholds s)) = precharge_state (BMU (s))"
  "discharge_state (BMU (set_voltage_thresholds s)) = discharge_state (BMU (s))"
  "hvdc_enable (set_voltage_thresholds s) = hvdc_enable (s)"
  "contactor_array (set_voltage_thresholds s) = contactor_array (s)"
  "previous_status (set_voltage_thresholds s) = previous_status (s)"
  by (simp_all add: set_voltage_thresholds_def Let_def)

lemma check_voltage_relays [simp]:
  "precharge_state (BMU (check_voltage v s)) = precharge_state (BMU (s))"
  "discharge_state (BMU (check_voltage v s)) = discharge_state (BMU (s))"
  "hvdc_enable (check_voltage v s) = hvdc_enable (s)"
  "contactor_array (check_voltage v s) = contactor_array (s)"
  "previous_status (check_voltage v s) = previous_status (s)"
  by (simp_all add: check_voltage_def Let_def)

lemma clear_voltage_relays [simp]:
  "precharge_state (BMU (clear_voltage s)) = precharge_state (BMU (s))"
  "discharge_state (BMU (clear_voltage s)) = discharge_state (BMU (s))"
  "hvdc_enable (clear_voltage s) = hvdc_enable (s)"
  "contactor_array (clear_voltage s) = contactor_array (s)"
  "previous_status (clear_voltage s) = previous_status (s)"
  by (simp_all add: clear_voltage_def Let_def)

lemma check_front_temperature_relays [simp]:
  "precharge_state (BMU (check_front_temperature s)) = precharge_state (BMU (s))"
  "discharge_state (BMU (check_front_temperature s)) = discharge_state (BMU (s))"
  "hvdc_enable (check_front_temperature s) = hvdc_enable (s)"
  "contactor_array (check_front_temperature s) = contactor_array (s)"
  "previous_status (check_front_temperature s) = previous_status (s)"
  by (simp_all add: check_front_temperature_def Let_def)

lemma check_rear_temperature_relays [simp]:
  "precharge_state (BMU (check_rear_temperature s)) = precharge_state (BMU (s))"
  "discharge_state (BMU (check_rear_temperature s)) = discharge_state (BMU (s))"
  "hvdc_enable (check_rear_temperature s) = hvdc_enable (s)"
  "contactor_array (check_rear_temperature s) = contactor_array (s)"
  "previous_status (check_rear_temperature s) = previous_status (s)"
  by (simp_all add: check_rear_temperature_def Let_def)

lemma clear_temperature_relays [simp]:
  "precharge_state (BMU (clear_temperature s)) = precharge_state (BMU (s))"
  "discharge_state (BMU (clear_temperature s)) = discharge_state (BMU (s))"
  "hvdc_enable (clear_temperature s) = hvdc_enable (s)"
  "contactor_array (clear_temperature s) = contactor_array (s)"
  "previous_status (clear_temperature s) = previous_status (s)"
  by (simp_all add: clear_temperature_def Let_def)

lemma check_cells_relays [simp]:
  "precharge_state (BMU (check_cells s)) = precharge_state (BMU (s))"
  "discharge_state (BMU (check_cells s)) = discharge_state (BMU (s))"
  "hvdc_enable (check_cells s) = hvdc_enable (s)"
  "contactor_array (check_cells s) = contactor_array (s)"
  "previous_status (check_cells s) = previous_status (s)"
  by (simp_all add: check_cells_def Let_def)

lemma update_BMU_status_array_relays [simp]:
  "precharge_state (BMU (update_BMU_status_array s)) = precharge_state (BMU (s))"
  "discharge_state (BMU (update_BMU_status_array s)) = discharge_state (BMU (s))"
  "hvdc_enable (update_BMU_status_array s) = hvdc_enable (s)"
  "contactor_array (update_BMU_status_array s) = contactor_array (s)"
  "previous_status (update_BMU_status_array s) = previous_status (s)"
  by (simp_all add: update_BMU_status_array_def Let_def)

lemma main_thread_owned_refl: "main_thread_owned s s"
  by (simp add: main_thread_owned_def)

lemma main_thread_owned_trans:
  "main_thread_owned s s' \<Longrightarrow> main_thread_owned s' s'' \<Longrightarrow> main_thread_owned s s''"
  by (auto simp add: main_thread_owned_def)

lemma CANRecieveRoutine_owned:
  assumes "CANRecieveRoutine now m s = Some s'"
  shows "main_thread_owned s s'"
  using assms
  by (auto simp add: main_thread_owned_def CANRecieveRoutine_def Let_def restart_IVT_timer_def
      config_IVT_def can_send_def split: if_splits)

lemma handle_interrupt_owned:
  assumes "handle_interrupt i s = Some s'"
  shows "main_thread_owned s s'"
proof (cases i)
  case (Rx now m)
  with assms show ?thesis by (simp add: CANRecieveRoutine_owned)
next
  case Tick
  with assms show ?thesis by (auto simp add: main_thread_owned_def set_heartbeat_flag_def)
qed

lemma serve_owned:
  "serve batch s = Some s' \<Longrightarrow> main_thread_owned s s'"
proof (induction batch arbitrary: s)
  case Nil
  then show ?case by (simp add: main_thread_owned_refl)
next
  case (Cons i batch)
  then show ?case
    by (auto split: option.splits
        intro: main_thread_owned_trans [OF handle_interrupt_owned])
qed

lemma window_owned:
  assumes "window s = Some s'"
  shows "main_thread_owned s s'"
proof (cases "irq_schedule s")
  case Nil
  with assms show ?thesis by (simp add: window_def main_thread_owned_refl)
next
  case (Cons batch rest)
  with assms have "serve batch (s\<lparr>irq_schedule := rest\<rparr>) = Some s'"
    by (simp add: window_def)
  from serve_owned [OF this] show ?thesis by (simp add: main_thread_owned_def)
qed

lemma CANRecieveRoutine_relays:
  assumes "CANRecieveRoutine now m s = Some s'"
  shows "precharge_state (BMU s') = precharge_state (BMU s)
       \<and> discharge_state (BMU s') = discharge_state (BMU s)
       \<and> hvdc_enable s' = hvdc_enable s"
  using CANRecieveRoutine_owned [OF assms] by (simp add: main_thread_owned_def)

text \<open>\<open>precharge\<close> and \<open>discharge\<close>, when they return.\<close>

lemma precharge_result:
  assumes "precharge detect s = Some s'"
  shows "BMU s' = (BMU s)\<lparr>discharge_state := False, precharge_state := True\<rparr>
       \<and> hvdc_enable s' \<and> contactor_array s' = contactor_array s
       \<and> solar_enable s' = solar_enable s \<and> error_flag s' = error_flag s
       \<and> previous_status s' = previous_status s \<and> BMU_status_array s' = BMU_status_array s
       \<and> (\<exists>sent. can_tx s' = can_tx s @ sent)"
proof -
  from assms obtain s1 s2 where w1: "window (precharge_start s) = Some s1"
    and w2: "window (precharge_close s1) = Some s2" and s': "s' = precharge_finish s2"
    by (auto simp add: precharge_def split: option.splits)
  from window_owned [OF w1] window_owned [OF w2] show ?thesis
    by (auto simp add: s' main_thread_owned_def precharge_start_def precharge_close_def
        precharge_finish_def Let_def)
qed

lemma discharge_result:
  assumes "discharge s = Some s'"
  shows "BMU s' = (BMU s)\<lparr>precharge_state := False, discharge_state := True\<rparr>
       \<and> \<not> hvdc_enable s' \<and> contactor_array s' = contactor_array s
       \<and> solar_enable s' = solar_enable s \<and> error_flag s' = error_flag s
       \<and> previous_status s' = previous_status s \<and> BMU_status_array s' = BMU_status_array s
       \<and> (\<exists>sent. can_tx s' = can_tx s @ sent)"
proof -
  from assms obtain s1 where w1: "window (discharge_start s) = Some s1"
    and s': "s' = discharge_finish s1"
    by (auto simp add: discharge_def split: option.splits)
  from window_owned [OF w1] show ?thesis
    by (auto simp add: s' main_thread_owned_def discharge_start_def discharge_finish_def
        Let_def)
qed

text \<open>The two branches of \<open>update_relays\<close>, when it returns.\<close>

lemma update_relays_driving:
  assumes "driving_guard s" and "update_relays detect s = Some s'"
  shows "contactor_array s' = 0x01 \<and> safe_to_drive (BMU s') \<and> precharge_state (BMU s')
       \<and> discharge_state (BMU s') = (precharge_state (BMU s) \<and> discharge_state (BMU s))
       \<and> (hvdc_enable s' \<or> \<not> hvdc_enable s \<and> precharge_state (BMU s))
       \<and> solar_enable s' = solar_enable s \<and> error_flag s' = error_flag s
       \<and> previous_status s' = previous_status s \<and> BMU_status_array s' = BMU_status_array s
       \<and> (\<exists>sent. can_tx s' = can_tx s @ \<lparr>msg_id = 0x34F, msg_data = [0x01]\<rparr> # sent)"
proof -
  let ?s2 = "s\<lparr>contactor_array := 0x01, contactor_indic := True\<rparr>"
  from assms obtain s3 where w: "window (can_send (contactor_msg ?s2) ?s2) = Some s3"
    and r: "(if \<not> precharge_state (BMU s3) then precharge detect s3 else Some s3) = Some s'"
    by (auto simp add: update_relays_def driving_guard_def Let_def split: option.splits)
  note o = window_owned [OF w]
  show ?thesis
  proof (cases "precharge_state (BMU s3)")
    case True
    with r have "s' = s3" by simp
    with o True assms(1) show ?thesis
      by (auto simp add: main_thread_owned_def can_send_def contactor_msg_def
          driving_guard_def)
  next
    case False
    with r have "precharge detect s3 = Some s'" by simp
    from precharge_result [OF this] o False assms(1) show ?thesis
      by (auto simp add: main_thread_owned_def can_send_def contactor_msg_def
          driving_guard_def)
  qed
qed

lemma update_relays_idle:
  assumes "\<not> driving_guard s" and "update_relays detect s = Some s'"
  shows "contactor_array s' = 0x00 \<and> discharge_state (BMU s')
       \<and> precharge_state (BMU s') = (precharge_state (BMU s) \<and> discharge_state (BMU s))
       \<and> hvdc_enable s' = (hvdc_enable s \<and> discharge_state (BMU s))
       \<and> solar_enable s' = (solar_demand s' \<and> safe_to_drive (BMU s'))
       \<and> solar_indic s' = solar_enable s'
       \<and> safe_to_drive (BMU s') = safe_to_drive (BMU s) \<and> error_flag s' = error_flag s
       \<and> previous_status s' = previous_status s \<and> BMU_status_array s' = BMU_status_array s
       \<and> (\<exists>sent. can_tx s' = can_tx s @ \<lparr>msg_id = 0x34F, msg_data = [0x00]\<rparr> # sent)"
proof -
  let ?s1 = "s\<lparr>contactor_array := 0x00\<rparr>"
  from assms obtain s2 s3 where w: "window (can_send (contactor_msg ?s1) ?s1) = Some s2"
    and r: "(if \<not> discharge_state (BMU s2) then discharge s2 else Some s2) = Some s3"
    and s': "s' = s3\<lparr>solar_enable := (solar_demand s3 \<and> safe_to_drive (BMU s3)),
                     solar_indic := (solar_demand s3 \<and> safe_to_drive (BMU s3))\<rparr>"
    by (auto simp add: update_relays_def driving_guard_def Let_def split: option.splits)
  note o = window_owned [OF w]
  show ?thesis
  proof (cases "discharge_state (BMU s2)")
    case True
    with r have "s3 = s2" by simp
    with o True show ?thesis
      by (auto simp add: s' main_thread_owned_def can_send_def contactor_msg_def)
  next
    case False
    with r have "discharge s2 = Some s3" by simp
    from discharge_result [OF this] o False show ?thesis
      by (auto simp add: s' main_thread_owned_def can_send_def contactor_msg_def)
  qed
qed

text \<open>What holds of the command and of the main contactor when \<open>update_relays\<close> returns.\<close>

lemma update_relays_command:
  assumes "relay_inv s" and "update_relays detect s = Some s'"
  shows "relay_inv s'
       \<and> (contactor_array s' = 0x01 \<or> hvdc_enable s' \<longrightarrow>
            driving_guard s \<and> safe_to_drive (BMU s') \<and> precharge_state (BMU s'))
       \<and> safe_to_drive (BMU s') = safe_to_drive (BMU s) \<and> error_flag s' = error_flag s
       \<and> previous_status s' = previous_status s \<and> BMU_status_array s' = BMU_status_array s"
proof (cases "driving_guard s")
  case True
  from update_relays_driving [OF True assms(2)] assms(1) True show ?thesis
    by (auto simp add: relay_inv_def driving_guard_def)
next
  case False
  from update_relays_idle [OF False assms(2)] assms(1) show ?thesis
    by (auto simp add: relay_inv_def)
qed

lemma beat_command:
  assumes "relay_inv s" and "beat detect s = Some s'"
  shows "relay_inv s'
       \<and> (contactor_array s' = 0x01 \<or> hvdc_enable s' \<longrightarrow>
            safe_to_drive (BMU s) \<and> safe_to_drive (BMU s') \<and> precharge_state (BMU s'))
       \<and> safe_to_drive (BMU s') = safe_to_drive (BMU s) \<and> error_flag s' = error_flag s
       \<and> previous_status s' = previous_status s \<and> BMU_status_array s' = BMU_status_array s"
proof -
  from assms(2) obtain s1 where w: "window (can_send (BMU_status_msg s) s) = Some s1"
    and u: "update_relays detect s1 = Some s'"
    by (auto simp add: beat_def split: option.splits)
  from window_owned [OF w]
  have o: "BMU s1 = BMU s" "hvdc_enable s1 = hvdc_enable s" "error_flag s1 = error_flag s"
    "previous_status s1 = previous_status s" "BMU_status_array s1 = BMU_status_array s"
    by (simp_all add: main_thread_owned_def can_send_def)
  have "relay_inv s1" using assms(1) o by (simp add: relay_inv_def)
  from update_relays_command [OF this u] o show ?thesis
    by (auto simp add: driving_guard_def)
qed

text \<open>The invariant of the command over the main loop, the interrupts and the runs.\<close>

lemma main_loop_body_command_inv:
  assumes "command_inv s" and "main_loop_body detect irqs s = Some s'"
  shows "command_inv s'"
proof -
  let ?P = "\<lambda>s. contactor_array s = 0x01 \<or> hvdc_enable s \<longrightarrow>
              safe_to_drive (BMU s) \<and> precharge_state (BMU s)"
  from assms(2) obtain s1 s2 s3 s4
    where w1: "window (check_cells (s\<lparr>irq_schedule := irqs\<rparr>)) = Some s1"
      and w2: "window (update_BMU_status_array s1) = Some s2"
      and b1: "(if heartbeat_flag s2 then beat detect (s2\<lparr>heartbeat_flag := False\<rparr>)
                else Some s2) = Some s3"
      and b2: "(if error_flag s3 \<and> previous_status s3 \<noteq> BMU_status_array s3 0
                then beat detect s3 else Some s3) = Some s4"
      and s': "s' = s4\<lparr>previous_status := BMU_status_array s4 0, irq_schedule := []\<rparr>"
    by (auto simp add: main_loop_body_def split: option.splits)
  from assms(1) have inv: "relay_inv s" "?P s" "previous_status s = BMU_status_array s 0"
    "bit (BMU_status_array s 0) 5 = safe_to_drive (BMU s)"
    by (simp_all add: command_inv_def)
  note o1 = window_owned [OF w1, unfolded main_thread_owned_def]
  note o2 = window_owned [OF w2, unfolded main_thread_owned_def]
  have same1: "precharge_state (BMU s1) = precharge_state (BMU s)"
    "discharge_state (BMU s1) = discharge_state (BMU s)" "hvdc_enable s1 = hvdc_enable s"
    "contactor_array s1 = contactor_array s" "previous_status s1 = previous_status s"
    using o1 by simp_all
  have same2: "precharge_state (BMU s2) = precharge_state (BMU s)"
    "discharge_state (BMU s2) = discharge_state (BMU s)" "hvdc_enable s2 = hvdc_enable s"
    "contactor_array s2 = contactor_array s" "previous_status s2 = previous_status s"
    using o2 same1 by simp_all
  have safe2: "safe_to_drive (BMU s2) = (\<not> error_flag s2)"
    using o2 update_BMU_status_array_safe [of s1] by simp
  have bit2: "bit (BMU_status_array s2 0) 5 = safe_to_drive (BMU s2)"
    using o2 update_BMU_status_array_bit5 [of s1] by simp
  have r2: "relay_inv s2" using inv(1) same2 by (simp add: relay_inv_def)
  \<comment> \<open>after the beat of the heartbeat, if any\<close>
  have st3: "relay_inv s3 \<and> safe_to_drive (BMU s3) = safe_to_drive (BMU s2)
      \<and> error_flag s3 = error_flag s2 \<and> previous_status s3 = previous_status s2
      \<and> BMU_status_array s3 = BMU_status_array s2
      \<and> (heartbeat_flag s2 \<longrightarrow> ?P s3)
      \<and> (\<not> heartbeat_flag s2 \<longrightarrow> contactor_array s3 = contactor_array s
            \<and> hvdc_enable s3 = hvdc_enable s \<and> precharge_state (BMU s3) = precharge_state (BMU s))"
  proof (cases "heartbeat_flag s2")
    case True
    have "relay_inv (s2\<lparr>heartbeat_flag := False\<rparr>)" using r2 by (simp add: relay_inv_def)
    from beat_command [OF this] b1 True show ?thesis by auto
  next
    case False
    with b1 have "s3 = s2" by simp
    with False r2 same2 show ?thesis by simp
  qed
  have safe3: "safe_to_drive (BMU s3) = (\<not> error_flag s3)" using st3 safe2 by simp
  have bit3: "bit (BMU_status_array s3 0) 5 = safe_to_drive (BMU s3)" using st3 bit2 by simp
  have P3: "error_flag s3 \<and> previous_status s3 \<noteq> BMU_status_array s3 0 \<or> ?P s3"
  proof (cases "heartbeat_flag s2")
    case True
    with st3 have "?P s3" by blast
    then show ?thesis by blast
  next
    case False
    show ?thesis
    proof (cases "error_flag s3")
      case noerr: False
      with safe3 have "safe_to_drive (BMU s3)" by simp
      with st3 False inv(2) show ?thesis by auto
    next
      case err: True
      show ?thesis
      proof (cases "contactor_array s = 0x01 \<or> hvdc_enable s")
        case True
        with inv(2,4) have "bit (BMU_status_array s 0) 5" by simp
        with inv(3) same2 st3 have "bit (previous_status s3) 5" by simp
        moreover from err safe3 bit3 have "\<not> bit (BMU_status_array s3 0) 5" by simp
        ultimately have "previous_status s3 \<noteq> BMU_status_array s3 0" by auto
        with err show ?thesis by simp
      next
        case nocmd: False
        with st3 False show ?thesis by simp
      qed
    qed
  qed
  \<comment> \<open>after the beat of the error, if any\<close>
  have st4: "relay_inv s4 \<and> ?P s4 \<and> safe_to_drive (BMU s4) = safe_to_drive (BMU s3)
      \<and> BMU_status_array s4 = BMU_status_array s3"
  proof (cases "error_flag s3 \<and> previous_status s3 \<noteq> BMU_status_array s3 0")
    case True
    with b2 have "beat detect s3 = Some s4" by simp
    from beat_command [OF _ this] st3 show ?thesis by auto
  next
    case False
    with b2 have "s4 = s3" by simp
    with False P3 st3 show ?thesis by auto
  qed
  with bit3 show ?thesis
    by (auto simp add: s' command_inv_def relay_inv_def)
qed

lemma handle_interrupt_command_inv:
  assumes "command_inv s" and "handle_interrupt i s = Some s'"
  shows "command_inv s'"
  using assms(1) handle_interrupt_owned [OF assms(2)]
  by (simp add: command_inv_def relay_inv_def main_thread_owned_def)

lemma exec_command_inv:
  assumes "command_inv s" and "exec e s = Some s'"
  shows "command_inv s'"
proof (cases e)
  case (Irq i)
  with assms handle_interrupt_command_inv show ?thesis by auto
next
  case (Loop detect irqs)
  with assms main_loop_body_command_inv show ?thesis by auto
qed

lemma run_command_inv:
  "command_inv s \<Longrightarrow> run evs s = Some s' \<Longrightarrow> command_inv s'"
proof (induction evs arbitrary: s)
  case Nil
  then show ?case by simp
next
  case (Cons e evs)
  then show ?case by (auto split: option.splits dest: exec_command_inv)
qed

lemma command_inv_init: "command_inv init_state"
  by (simp add: command_inv_def relay_inv_def init_state_def init_bmu_def)

lemma run_relay_inv:
  assumes "run evs init_state = Some s"
  shows "relay_inv s"
  using run_command_inv [OF command_inv_init assms] by (simp add: command_inv_def)

section \<open>The sequencer flags are exclusive\<close>

text \<open>
  C3. In every state of every run, \<open>precharge_state\<close> and \<open>discharge_state\<close> are not both
  true. \<open>precharge\<close> clears \<open>discharge_state\<close> before its waits and sets \<open>precharge_state\<close>
  after them; \<open>discharge\<close> clears \<open>precharge_state\<close> before its wait and sets \<open>discharge_state\<close>
  after it; the evaluator, the status update, the ticker callback, the CAN sends, the
  receive interrupt and every batch of interrupts served while the main thread waits
  leave both flags as they are.
\<close>

theorem C3_precharge_discharge_exclusive:
  "(run evs init_state = Some s \<longrightarrow> \<not> (precharge_state (BMU s) \<and> discharge_state (BMU s)))
   \<and> sequencer_view (precharge_start t) = (precharge_state (BMU t), False)
   \<and> sequencer_view (precharge_close t) = sequencer_view t
   \<and> sequencer_view (precharge_finish t) = (True, discharge_state (BMU t))
   \<and> (precharge detect t = Some t1 \<longrightarrow> sequencer_view t1 = (True, False))
   \<and> sequencer_view (discharge_start t) = (False, discharge_state (BMU t))
   \<and> sequencer_view (discharge_finish t) = (precharge_state (BMU t), True)
   \<and> (discharge t = Some t3 \<longrightarrow> sequencer_view t3 = (False, True))
   \<and> sequencer_view (check_cells t) = sequencer_view t
   \<and> sequencer_view (update_BMU_status_array t) = sequencer_view t
   \<and> sequencer_view (set_heartbeat_flag t) = sequencer_view t
   \<and> sequencer_view (can_send msg t) = sequencer_view t
   \<and> sequencer_view (config_IVT t) = sequencer_view t
   \<and> (CANRecieveRoutine now m t = Some t2 \<longrightarrow> sequencer_view t2 = sequencer_view t)
   \<and> (window t = Some t4 \<longrightarrow> sequencer_view t4 = sequencer_view t)"
proof (intro conjI impI)
  assume "run evs init_state = Some s"
  from run_relay_inv [OF this]
  show "\<not> (precharge_state (BMU s) \<and> discharge_state (BMU s))"
    by (simp add: relay_inv_def)
next
  assume "precharge detect t = Some t1"
  from precharge_result [OF this] show "sequencer_view t1 = (True, False)"
    by (simp add: sequencer_view_def)
next
  assume "discharge t = Some t3"
  from discharge_result [OF this] show "sequencer_view t3 = (False, True)"
    by (simp add: sequencer_view_def)
next
  assume "CANRecieveRoutine now m t = Some t2"
  from CANRecieveRoutine_relays [OF this] show "sequencer_view t2 = sequencer_view t"
    by (simp add: sequencer_view_def)
next
  assume "window t = Some t4"
  from window_owned [OF this] show "sequencer_view t4 = sequencer_view t"
    by (simp add: sequencer_view_def main_thread_owned_def)
qed (simp_all add: sequencer_view_def precharge_start_def precharge_close_def
      precharge_finish_def discharge_start_def discharge_finish_def Let_def
      set_heartbeat_flag_def can_send_def config_IVT_def)

theorem C3_precharge_discharge_exclusive_witness:
  "(\<exists>s. run drive_then_ignition_off init_state = Some s
       \<and> precharge_state (BMU s) \<and> \<not> discharge_state (BMU s))
   \<and> (\<exists>t1. precharge detect_high init_state = Some t1 \<and> sequencer_view t1 = (True, False))
   \<and> (\<exists>t3. discharge init_state = Some t3 \<and> sequencer_view t3 = (False, True))
   \<and> (\<exists>t2. CANRecieveRoutine 50 ignition_on init_state = Some t2
       \<and> sequencer_view t2 = sequencer_view init_state)
   \<and> (\<exists>t4. window (init_state\<lparr>irq_schedule := [[Rx 50 ignition_on]]\<rparr>) = Some t4
       \<and> ignition_demand t4
       \<and> sequencer_view t4 = sequencer_view (init_state\<lparr>irq_schedule := [[Rx 50 ignition_on]]\<rparr>))"
proof (intro conjI)
  have "map_option precharge_state (map_option BMU (run drive_then_ignition_off init_state))
          = Some True"
    by code_simp
  then obtain s where r: "run drive_then_ignition_off init_state = Some s"
      "precharge_state (BMU s)"
    by auto
  with C3_precharge_discharge_exclusive [of drive_then_ignition_off s]
  show "\<exists>s. run drive_then_ignition_off init_state = Some s
       \<and> precharge_state (BMU s) \<and> \<not> discharge_state (BMU s)"
    by blast
next
  have "map_option heartbeat_flag (precharge detect_high init_state) = Some False"
    by code_simp
  then obtain t1 where "precharge detect_high init_state = Some t1" by auto
  with C3_precharge_discharge_exclusive [where detect = detect_high and t = init_state
      and ?t1.0 = t1]
  show "\<exists>t1. precharge detect_high init_state = Some t1 \<and> sequencer_view t1 = (True, False)"
    by blast
next
  have "map_option heartbeat_flag (discharge init_state) = Some False"
    by code_simp
  then obtain t3 where "discharge init_state = Some t3" by auto
  with C3_precharge_discharge_exclusive [where t = init_state and ?t3.0 = t3]
  show "\<exists>t3. discharge init_state = Some t3 \<and> sequencer_view t3 = (False, True)"
    by blast
next
  have "map_option ignition_demand (CANRecieveRoutine 50 ignition_on init_state) = Some True"
    by code_simp
  then obtain t2 where "CANRecieveRoutine 50 ignition_on init_state = Some t2" by auto
  with C3_precharge_discharge_exclusive [where t = init_state and now = 50
      and m = ignition_on and ?t2.0 = t2]
  show "\<exists>t2. CANRecieveRoutine 50 ignition_on init_state = Some t2
       \<and> sequencer_view t2 = sequencer_view init_state"
    by blast
next
  let ?t = "init_state\<lparr>irq_schedule := [[Rx 50 ignition_on]]\<rparr>"
  have "map_option ignition_demand (window ?t) = Some True"
    by code_simp
  then obtain t4 where "window ?t = Some t4" "ignition_demand t4" by auto
  with C3_precharge_discharge_exclusive [where t = ?t and ?t4.0 = t4]
  show "\<exists>t4. window ?t = Some t4 \<and> ignition_demand t4
       \<and> sequencer_view t4 = sequencer_view ?t"
    by blast
qed

section \<open>The contactor command\<close>

text \<open>
  C2, as stated, fails. In the run \<open>drive_then_ignition_off\<close> the packs are healthy, the
  ignition is switched on, a beat engages the contactors and precharges, and then a
  driver-controls frame reports the ignition off: the state reached has the contactor
  command at 1 and \<open>hvdc_enable\<close> high while \<open>ignition_demand\<close> is false. The relays are
  only updated at the next beat.
\<close>

theorem C2_counterexample:
  "map_option contactor_view (run drive_then_ignition_off init_state)
     = Some (0x01, True, False, True, True)"
  by code_simp

text \<open>
  C2, amended. In every state that a run reaches (between two iterations of the main
  loop, whatever interrupts pre-empted the iterations), the contactor command is 1 or
  \<open>hvdc_enable\<close> is high only if \<open>safe_to_drive\<close> and \<open>precharge_state\<close> hold. Every call of
  \<open>update_relays\<close> that returns has sent a frame to \<open>0x34F\<close> carrying the command byte; that
  byte is 1 only if \<open>ignition_demand\<close>, \<open>\<not> previous_ignition_demand\<close> and \<open>safe_to_drive\<close> held when
  the call tested them, and then \<open>safe_to_drive\<close> and \<open>precharge_state\<close> hold on return;
  \<open>ignition_demand\<close> still holds on return when no interrupt pre-empted the call.
\<close>

theorem C2_command_needs_safe_and_precharged:
  "(run evs init_state = Some s \<longrightarrow>
      (contactor_array s = 0x01 \<or> hvdc_enable s \<longrightarrow>
         safe_to_drive (BMU s) \<and> precharge_state (BMU s)))
   \<and> (update_relays detect t = Some t' \<longrightarrow>
        (\<exists>sent. can_tx t' =
            can_tx t @ \<lparr>msg_id = 0x34F, msg_data = [contactor_array t']\<rparr> # sent)
        \<and> (contactor_array t' = 0x01 \<longrightarrow>
             ignition_demand t \<and> \<not> previous_ignition_demand t \<and> safe_to_drive (BMU t)
             \<and> safe_to_drive (BMU t') \<and> precharge_state (BMU t'))
        \<and> (contactor_array t' = 0x01 \<and> irq_schedule t = [] \<longrightarrow> ignition_demand t'))"
proof (intro conjI impI)
  assume "run evs init_state = Some s" and c: "contactor_array s = 0x01 \<or> hvdc_enable s"
  from run_command_inv [OF command_inv_init this(1)] c
  have "safe_to_drive (BMU s) \<and> precharge_state (BMU s)"
    by (simp add: command_inv_def)
  then show "safe_to_drive (BMU s)" and "precharge_state (BMU s)" by simp_all
next
  assume u: "update_relays detect t = Some t'"
  show "\<exists>sent. can_tx t' =
            can_tx t @ \<lparr>msg_id = 0x34F, msg_data = [contactor_array t']\<rparr> # sent"
  proof (cases "driving_guard t")
    case True
    from update_relays_driving [OF True u] show ?thesis by simp
  next
    case False
    from update_relays_idle [OF False u] show ?thesis by simp
  qed
next
  assume u: "update_relays detect t = Some t'" and c: "contactor_array t' = 0x01"
  have g: "driving_guard t"
  proof (rule ccontr)
    assume "\<not> driving_guard t"
    from update_relays_idle [OF this u] c show False by simp
  qed
  from g show "ignition_demand t" and "\<not> previous_ignition_demand t"
    and "safe_to_drive (BMU t)"
    by (simp_all add: driving_guard_def)
  from update_relays_driving [OF g u]
  show "safe_to_drive (BMU t')" and "precharge_state (BMU t')"
    by simp_all
next
  assume u: "update_relays detect t = Some t'"
    and c: "contactor_array t' = 0x01 \<and> irq_schedule t = []"
  have g: "driving_guard t"
  proof (rule ccontr)
    assume "\<not> driving_guard t"
    from update_relays_idle [OF this u] c show False by simp
  qed
  from c have n: "irq_schedule t = []" by simp
  from u g n show "ignition_demand t'"
    by (auto simp add: update_relays_def driving_guard_def Let_def window_def can_send_def
        precharge_def precharge_start_def precharge_close_def precharge_finish_def
        split: option.splits if_splits)
qed

theorem C2_command_needs_safe_and_precharged_witness:
  "(\<exists>s. run ignition_off_during_precharge init_state = Some s \<and> contactor_array s = 0x01
      \<and> \<not> ignition_demand s \<and> safe_to_drive (BMU s) \<and> precharge_state (BMU s))
   \<and> (\<exists>t t'. run ignition_demand_run init_state = Some t \<and> irq_schedule t = []
      \<and> update_relays detect_high t = Some t' \<and> contactor_array t' = 0x01
      \<and> (\<exists>sent. can_tx t' = can_tx t @ \<lparr>msg_id = 0x34F, msg_data = [0x01]\<rparr> # sent)
      \<and> ignition_demand t \<and> \<not> previous_ignition_demand t \<and> safe_to_drive (BMU t)
      \<and> safe_to_drive (BMU t') \<and> precharge_state (BMU t') \<and> ignition_demand t')"
proof (intro conjI)
  have "map_option contactor_view (run ignition_off_during_precharge init_state)
          = Some (0x01, True, False, True, True)"
    by code_simp
  then obtain s where r: "run ignition_off_during_precharge init_state = Some s"
      "contactor_array s = 0x01" "\<not> ignition_demand s"
    by (auto simp add: contactor_view_def)
  with C2_command_needs_safe_and_precharged [of ignition_off_during_precharge s]
  show "\<exists>s. run ignition_off_during_precharge init_state = Some s \<and> contactor_array s = 0x01
      \<and> \<not> ignition_demand s \<and> safe_to_drive (BMU s) \<and> precharge_state (BMU s)"
    by blast
next
  have "map_option irq_schedule (run ignition_demand_run init_state) = Some []"
    by code_simp
  moreover have "map_option contactor_array
      (Option.bind (run ignition_demand_run init_state) (update_relays detect_high)) = Some 0x01"
    by code_simp
  ultimately obtain t t' where r: "run ignition_demand_run init_state = Some t"
      "irq_schedule t = []" "update_relays detect_high t = Some t'" "contactor_array t' = 0x01"
    by (auto simp add: bind_eq_Some_conv)
  with C2_command_needs_safe_and_precharged [where detect = detect_high and t = t and t' = t']
  show "\<exists>t t'. run ignition_demand_run init_state = Some t \<and> irq_schedule t = []
      \<and> update_relays detect_high t = Some t' \<and> contactor_array t' = 0x01
      \<and> (\<exists>sent. can_tx t' = can_tx t @ \<lparr>msg_id = 0x34F, msg_data = [0x01]\<rparr> # sent)
      \<and> ignition_demand t \<and> \<not> previous_ignition_demand t \<and> safe_to_drive (BMU t)
      \<and> safe_to_drive (BMU t') \<and> precharge_state (BMU t') \<and> ignition_demand t'"
    by auto
qed

section \<open>The solar output\<close>




section \<open>The stores of the receive interrupt stay in their arrays\<close>

declare cell_voltages_loop.simps [simp del]
declare cell_temperatures_loop.simps [simp del]

lemma cell_voltages_loop_in_bounds:
  assumes "length cv = 32" and "CELL_VOLTAGES_BASE_ID \<le> msg_id m"
    and "msg_id m \<le> CELL_VOLTAGES_BASE_ID + 0x7"
  shows "\<exists>cv'. cell_voltages_loop i m cv = Some cv' \<and> length cv' = 32
           \<and> (\<forall>j. j < (msg_id m - CELL_VOLTAGES_BASE_ID) * 4 + i
                    \<or> (msg_id m - CELL_VOLTAGES_BASE_ID) * 4 + 3 < j \<longrightarrow> cv' ! j = cv ! j)"
  using assms
proof (induction i m cv rule: cell_voltages_loop.induct)
  case (1 i m cv)
  show ?case
  proof (cases "i < 4")
    case False
    then show ?thesis
      using "1.prems" by (subst cell_voltages_loop.simps) simp
  next
    case True
    let ?index = "(msg_id m - CELL_VOLTAGES_BASE_ID) * 4 + i"
    let ?cv = "cv[?index := ucast (msg_data m ! (i * 2))
                            OR push_bit 8 (ucast (msg_data m ! (i * 2 + 1)))]"
    have idx: "?index < length cv" using True "1.prems" by simp
    have len: "length ?cv = 32" using "1.prems" by simp
    from "1.IH" [OF True refl idx len "1.prems"(2,3)]
    obtain cv' where cv': "cell_voltages_loop (i + 1) m ?cv = Some cv'" "length cv' = 32"
      and same: "\<forall>j. j < (msg_id m - CELL_VOLTAGES_BASE_ID) * 4 + (i + 1)
                    \<or> (msg_id m - CELL_VOLTAGES_BASE_ID) * 4 + 3 < j \<longrightarrow> cv' ! j = ?cv ! j"
      by blast
    have "cell_voltages_loop i m cv = Some cv'"
      using True idx cv'(1) by (subst cell_voltages_loop.simps) (simp add: Let_def)
    moreover have "\<forall>j. j < ?index \<or> (msg_id m - CELL_VOLTAGES_BASE_ID) * 4 + 3 < j
                     \<longrightarrow> cv' ! j = cv ! j"
      using same True by auto
    ultimately show ?thesis using cv'(2) by blast
  qed
qed

lemma cell_temperatures_loop_in_bounds:
  assumes "length ct = 2" and "\<forall>r<2. length (ct ! r) = 8" and "row < 2"
  shows "\<exists>ct'. cell_temperatures_loop row i m ct = Some ct' \<and> length ct' = 2
           \<and> (\<forall>r<2. length (ct' ! r) = 8)
           \<and> (\<forall>r c. r \<noteq> row \<or> c < i \<or> 8 \<le> c \<longrightarrow> ct' ! r ! c = ct ! r ! c)"
  using assms
proof (induction row i m ct rule: cell_temperatures_loop.induct)
  case (1 row i m ct)
  show ?case
  proof (cases "i < 8")
    case False
    then show ?thesis
      using "1.prems" by (subst cell_temperatures_loop.simps) simp
  next
    case True
    let ?ct = "ct[row := (ct ! row)[i := msg_data m ! i]]"
    have idx: "row < length ct \<and> i < length (ct ! row)" using True "1.prems" by simp
    have len: "length ?ct = 2" using "1.prems" by simp
    have rows: "\<forall>r<2. length (?ct ! r) = 8"
      using "1.prems" by (auto simp add: nth_list_update)
    from "1.IH" [OF True idx len rows "1.prems"(3)]
    obtain ct' where ct': "cell_temperatures_loop row (i + 1) m ?ct = Some ct'"
        "length ct' = 2" "\<forall>r<2. length (ct' ! r) = 8"
      and same: "\<forall>r c. r \<noteq> row \<or> c < i + 1 \<or> 8 \<le> c \<longrightarrow> ct' ! r ! c = ?ct ! r ! c"
      by blast
    have "cell_temperatures_loop row i m ct = Some ct'"
      using True idx ct'(1) by (subst cell_temperatures_loop.simps) simp
    moreover have "\<forall>r c. r \<noteq> row \<or> c < i \<or> 8 \<le> c \<longrightarrow> ct' ! r ! c = ct ! r ! c"
      using same True idx by (auto simp add: nth_list_update)
    ultimately show ?thesis using ct'(2,3) by blast
  qed
qed

lemma arrays_declared_rows:
  "arrays_declared s =
     (length (cell_voltages s) = 32 \<and> length (cell_temperatures s) = 2
      \<and> (\<forall>r<2. length (cell_temperatures s ! r) = 8))"
  by (auto simp add: arrays_declared_def list_all_length)

lemma CANRecieveRoutine_other_frames:
  assumes "\<not> (CELL_VOLTAGES_BASE_ID \<le> msg_id m \<and> msg_id m \<le> CELL_VOLTAGES_BASE_ID + 0x7)"
    and "msg_id m \<noteq> 0x550" and "msg_id m \<noteq> 0x562"
  shows "\<exists>s'. CANRecieveRoutine now m s = Some s' \<and> cell_voltages s' = cell_voltages s
           \<and> cell_temperatures s' = cell_temperatures s"
  using assms
  by (auto simp add: CANRecieveRoutine_def Let_def restart_IVT_timer_def config_IVT_def
      can_send_def)

text \<open>
  C10. With the arrays of their declared sizes (32 cell voltages, 2 rows of 8 cell
  temperatures), the receive interrupt returns for every frame at every time, that is, no
  store leaves its array, and the arrays keep their sizes. An element of \<open>cell_voltages\<close>
  that changed has an index among \<open>4 * (id - 0x360) + 0..3\<close> for a frame with identifier
  in \<open>0x360..0x367\<close>, and the index is below 32. An element of \<open>cell_temperatures\<close> that
  changed is in row 0 for a frame \<open>0x550\<close> or in row 1 for a frame \<open>0x562\<close>, in a column
  below 8.
\<close>

theorem C10_decoder_writes_in_bounds:
  assumes "arrays_declared s"
  shows "\<exists>s'. CANRecieveRoutine now m s = Some s' \<and> arrays_declared s'
     \<and> (\<forall>j. cell_voltages s' ! j \<noteq> cell_voltages s ! j \<longrightarrow>
           0x360 \<le> msg_id m \<and> msg_id m \<le> 0x367
           \<and> 4 * (msg_id m - 0x360) \<le> j \<and> j \<le> 4 * (msg_id m - 0x360) + 3 \<and> j < 32)
     \<and> (\<forall>r c. cell_temperatures s' ! r ! c \<noteq> cell_temperatures s ! r ! c \<longrightarrow>
           (msg_id m = 0x550 \<and> r = 0 \<or> msg_id m = 0x562 \<and> r = 1) \<and> c < 8)"
proof -
  from assms have len: "length (cell_voltages s) = 32" "length (cell_temperatures s) = 2"
    and rows: "\<forall>r<2. length (cell_temperatures s ! r) = 8"
    by (simp_all add: arrays_declared_rows)
  consider (voltages) "CELL_VOLTAGES_BASE_ID \<le> msg_id m \<and> msg_id m \<le> CELL_VOLTAGES_BASE_ID + 0x7"
    | (row0) "msg_id m = 0x550" | (row1) "msg_id m = 0x562"
    | (other) "\<not> (CELL_VOLTAGES_BASE_ID \<le> msg_id m \<and> msg_id m \<le> CELL_VOLTAGES_BASE_ID + 0x7)"
        "msg_id m \<noteq> 0x550" "msg_id m \<noteq> 0x562"
    by blast
  then show ?thesis
  proof cases
    case voltages
    then have r: "CELL_VOLTAGES_BASE_ID \<le> msg_id m" "msg_id m \<le> CELL_VOLTAGES_BASE_ID + 0x7"
      by simp_all
    from cell_voltages_loop_in_bounds [OF len(1) r, of 0]
    obtain cv' where cv': "cell_voltages_loop 0 m (cell_voltages s) = Some cv'" "length cv' = 32"
      and same: "\<forall>j. j < (msg_id m - CELL_VOLTAGES_BASE_ID) * 4
                    \<or> (msg_id m - CELL_VOLTAGES_BASE_ID) * 4 + 3 < j
                    \<longrightarrow> cv' ! j = cell_voltages s ! j"
      by auto
    let ?s' = "s\<lparr>cell_voltages := cv'\<rparr>"
    have "CANRecieveRoutine now m s = Some ?s'"
      using voltages cv'(1) by (simp add: CANRecieveRoutine_def Let_def)
    moreover have "arrays_declared ?s'"
      using cv'(2) len rows by (simp add: arrays_declared_rows)
    moreover have "\<forall>j. cell_voltages ?s' ! j \<noteq> cell_voltages s ! j \<longrightarrow>
           0x360 \<le> msg_id m \<and> msg_id m \<le> 0x367
           \<and> 4 * (msg_id m - 0x360) \<le> j \<and> j \<le> 4 * (msg_id m - 0x360) + 3 \<and> j < 32"
    proof (intro allI impI)
      fix j
      assume "cell_voltages ?s' ! j \<noteq> cell_voltages s ! j"
      with same have "\<not> (j < (msg_id m - CELL_VOLTAGES_BASE_ID) * 4
                    \<or> (msg_id m - CELL_VOLTAGES_BASE_ID) * 4 + 3 < j)"
        by auto
      with r show "0x360 \<le> msg_id m \<and> msg_id m \<le> 0x367
           \<and> 4 * (msg_id m - 0x360) \<le> j \<and> j \<le> 4 * (msg_id m - 0x360) + 3 \<and> j < 32"
        by arith
    qed
    moreover have "\<forall>r c. cell_temperatures ?s' ! r ! c \<noteq> cell_temperatures s ! r ! c \<longrightarrow>
           (msg_id m = 0x550 \<and> r = 0 \<or> msg_id m = 0x562 \<and> r = 1) \<and> c < 8"
      by simp
    ultimately show ?thesis by blast
  next
    case row0
    from cell_temperatures_loop_in_bounds [OF len(2) rows, of 0 0 m]
    obtain ct' where ct': "cell_temperatures_loop 0 0 m (cell_temperatures s) = Some ct'"
        "length ct' = 2" "\<forall>r<2. length (ct' ! r) = 8"
      and same: "\<forall>r c. r \<noteq> 0 \<or> 8 \<le> c \<longrightarrow> ct' ! r ! c = cell_temperatures s ! r ! c"
      by auto
    let ?s' = "s\<lparr>cell_temperatures := ct'\<rparr>"
    have "CANRecieveRoutine now m s = Some ?s'"
      using row0 ct'(1) by (simp add: CANRecieveRoutine_def Let_def)
    moreover have "arrays_declared ?s'"
      using ct'(2,3) len by (simp add: arrays_declared_rows)
    moreover have "\<forall>r c. cell_temperatures ?s' ! r ! c \<noteq> cell_temperatures s ! r ! c \<longrightarrow>
           (msg_id m = 0x550 \<and> r = 0 \<or> msg_id m = 0x562 \<and> r = 1) \<and> c < 8"
    proof (intro allI impI)
      fix r c
      assume "cell_temperatures ?s' ! r ! c \<noteq> cell_temperatures s ! r ! c"
      then have "ct' ! r ! c \<noteq> cell_temperatures s ! r ! c" by simp
      with same have "\<not> (r \<noteq> 0 \<or> 8 \<le> c)" by blast
      with row0 show "(msg_id m = 0x550 \<and> r = 0 \<or> msg_id m = 0x562 \<and> r = 1) \<and> c < 8"
        by simp
    qed
    moreover have "\<forall>j. cell_voltages ?s' ! j \<noteq> cell_voltages s ! j \<longrightarrow>
           0x360 \<le> msg_id m \<and> msg_id m \<le> 0x367
           \<and> 4 * (msg_id m - 0x360) \<le> j \<and> j \<le> 4 * (msg_id m - 0x360) + 3 \<and> j < 32"
      by simp
    ultimately show ?thesis by blast
  next
    case row1
    from cell_temperatures_loop_in_bounds [OF len(2) rows, of 1 0 m]
    obtain ct' where ct': "cell_temperatures_loop 1 0 m (cell_temperatures s) = Some ct'"
        "length ct' = 2" "\<forall>r<2. length (ct' ! r) = 8"
      and same: "\<forall>r c. r \<noteq> 1 \<or> 8 \<le> c \<longrightarrow> ct' ! r ! c = cell_temperatures s ! r ! c"
      by auto
    let ?s' = "s\<lparr>cell_temperatures := ct'\<rparr>"
    have "CANRecieveRoutine now m s = Some ?s'"
      using row1 ct'(1) by (simp add: CANRecieveRoutine_def Let_def)
    moreover have "arrays_declared ?s'"
      using ct'(2,3) len by (simp add: arrays_declared_rows)
    moreover have "\<forall>r c. cell_temperatures ?s' ! r ! c \<noteq> cell_temperatures s ! r ! c \<longrightarrow>
           (msg_id m = 0x550 \<and> r = 0 \<or> msg_id m = 0x562 \<and> r = 1) \<and> c < 8"
    proof (intro allI impI)
      fix r c
      assume "cell_temperatures ?s' ! r ! c \<noteq> cell_temperatures s ! r ! c"
      then have "ct' ! r ! c \<noteq> cell_temperatures s ! r ! c" by simp
      with same have "\<not> (r \<noteq> 1 \<or> 8 \<le> c)" by blast
      with row1 show "(msg_id m = 0x550 \<and> r = 0 \<or> msg_id m = 0x562 \<and> r = 1) \<and> c < 8"
        by simp
    qed
    moreover have "\<forall>j. cell_voltages ?s' ! j \<noteq> cell_voltages s ! j \<longrightarrow>
           0x360 \<le> msg_id m \<and> msg_id m \<le> 0x367
           \<and> 4 * (msg_id m - 0x360) \<le> j \<and> j \<le> 4 * (msg_id m - 0x360) + 3 \<and> j < 32"
      by simp
    ultimately show ?thesis by blast
  next
    case other
    from CANRecieveRoutine_other_frames [OF other, of now s] assms show ?thesis
      by (auto simp add: arrays_declared_def)
  qed
qed

theorem C10_decoder_writes_in_bounds_witness:
  "arrays_declared init_state
   \<and> (\<exists>s'. CANRecieveRoutine 0 last_cells_frame init_state = Some s' \<and> arrays_declared s'
        \<and> cell_voltages s' ! 27 = 0 \<and> cell_temperatures s' ! 1 ! 7 = 0)"
proof -
  have a: "arrays_declared init_state"
    by (simp add: arrays_declared_rows init_state_def less_2_cases_iff)
  have v: "cell_voltages init_state ! 27 = 0" and t: "cell_temperatures init_state ! 1 ! 7 = 0"
    by (simp_all add: init_state_def)
  have i: "msg_id last_cells_frame = 0x367" by (simp add: last_cells_frame_def)
  from C10_decoder_writes_in_bounds [OF a, of 0 last_cells_frame]
  obtain s' where s': "CANRecieveRoutine 0 last_cells_frame init_state = Some s'"
      "arrays_declared s'"
    and vs: "\<forall>j. cell_voltages s' ! j \<noteq> cell_voltages init_state ! j \<longrightarrow>
           0x360 \<le> msg_id last_cells_frame \<and> msg_id last_cells_frame \<le> 0x367
           \<and> 4 * (msg_id last_cells_frame - 0x360) \<le> j
           \<and> j \<le> 4 * (msg_id last_cells_frame - 0x360) + 3 \<and> j < 32"
    and ts: "\<forall>r c. cell_temperatures s' ! r ! c \<noteq> cell_temperatures init_state ! r ! c \<longrightarrow>
           (msg_id last_cells_frame = 0x550 \<and> r = 0 \<or> msg_id last_cells_frame = 0x562 \<and> r = 1)
           \<and> c < 8"
    by blast
  from vs [rule_format, of 27] i
  have "cell_voltages s' ! 27 = cell_voltages init_state ! 27"
    by (cases "cell_voltages s' ! 27 = cell_voltages init_state ! 27") simp_all
  moreover from ts [rule_format, of 1 7] i
  have "cell_temperatures s' ! 1 ! 7 = cell_temperatures init_state ! 1 ! 7"
    by (cases "cell_temperatures s' ! 1 ! 7 = cell_temperatures init_state ! 1 ! 7") simp_all
  ultimately show ?thesis using a s' v t by auto
qed

section \<open>The evaluator on concrete readings\<close>

text \<open>
  C4. The evaluator compares \<open>IVT_time\<close>, the interval latched when the last current
  frame arrived, and never reads the running timer. Three runs, observed at a clock
  reading through (milliseconds since the most recent current frame, \<open>IVT_time\<close>, timeout
  raised, \<open>error_flag\<close>, \<open>safe_to_drive\<close>): a current frame at 100 ms and then silence gives, at
  5000 ms, 4900 ms without a frame and no timeout, with \<open>safe_to_drive\<close> set; a first
  current frame 1500 ms after boot raises the timeout although 0 ms have passed since
  that frame; a cold boot without any frame has, at 1200 ms, no timeout (its \<open>error_flag\<close>
  comes from the readings of 0 mV and 0 degrees).
\<close>

theorem C4_timeout_is_latched_interval:
  "map_option (timeout_view 5000) (run current_frames_stop init_state)
     = Some (4900, 100, False, False, True)
   \<and> map_option (timeout_view 1500) (run current_frame_late init_state)
     = Some (0, 1500, True, True, False)
   \<and> map_option (timeout_view 1200) (run cold_boot_no_traffic init_state)
     = Some (1200, 0, False, True, False)"
  by (intro conjI; code_simp)

text \<open>
  C5. \<open>ivt_min_current\<close> returns what \<open>ivt_max_current\<close> returns, the larger current. With
  the front pack at -150 000 mA and the rear at 0 mA, the smaller current is below
  -100 000 mA and \<open>check_cells\<close> leaves \<open>over_current\<close> false.
\<close>

theorem C5_min_current_is_max_current:
  "ivt_min_current s = ivt_max_current s
   \<and> map_option current_view (run front_charging_150A init_state)
     = Some (- 150000, 0, False)"
proof
  show "ivt_min_current s = ivt_max_current s"
    by (simp add: ivt_min_current_def ivt_max_current_def)
  show "map_option current_view (run front_charging_150A init_state)
     = Some (- 150000, 0, False)"
    by code_simp
qed

text \<open>
  C6. With the front pack steady at 67 100 mV, above the nominal upper bound of
  67 040 mV, three passes of \<open>check_cells\<close> in a row give (front reading, rear reading,
  \<open>over_voltage_flag\<close>, threshold of the pass, \<open>over_voltage\<close>): the first pass raises the
  fault against 67 040; the second compares with 67 200 and clears it although the
  reading never came down; the third raises it again.
\<close>

theorem C6_over_voltage_clears_above_nominal_bound:
  "map_option voltage_view (map_option check_cells (run front_67100mV init_state))
     = Some (67100, 60000, True, 67040, True)
   \<and> map_option voltage_view
       (map_option check_cells (map_option check_cells (run front_67100mV init_state)))
     = Some (67100, 60000, False, 67200, False)
   \<and> map_option voltage_view
       (map_option check_cells
         (map_option check_cells (map_option check_cells (run front_67100mV init_state))))
     = Some (67100, 60000, True, 67040, True)"
  by (intro conjI; code_simp)

text \<open>
  C7. With both packs at 60 000 mV, the front IVT at 1.0 degree and the rear at 25.0
  degrees, a pass of \<open>check_cells\<close> gives (front reading, rear reading, front reading below
  the lower bound, \<open>under_temperature_flag\<close>, \<open>under_voltage_flag\<close>, \<open>under_temperature\<close>): the
  front reading is below 2 degrees, the branch sets \<open>under_voltage_flag\<close> in place of
  \<open>under_temperature_flag\<close>, and lines 835-838 clear \<open>under_temperature\<close> again.
\<close>

theorem C7_front_under_temperature_is_cleared:
  "map_option temperature_view (map_option check_cells (run front_1_degree init_state))
     = Some (10, 250, True, False, True, False)"
  by code_simp

end
